theory Spec2Isabelle
  imports Main "HOL-Library.Char_ord" "HOL-Library.List_Lexorder"
begin

section \<open>Unified API responses (lib/api-utils)\<close>

text \<open>
  \<^verbatim>\<open>HTTP_STATUS\<close> and \<^verbatim>\<open>ERROR_CODES\<close> are closed tables of constants; a response is
  either \<^verbatim>\<open>{success: true, data}\<close> or \<^verbatim>\<open>{success: false, error, code}\<close> sent with a
  status. The human-readable message text is not part of the model: every property
  below is about the machine-readable code, the status and the stores.
\<close>

datatype http_status =
  OK | CREATED | NO_CONTENT | BAD_REQUEST | UNAUTHORIZED | FORBIDDEN | NOT_FOUND
  | CONFLICT | UNPROCESSABLE_ENTITY | INTERNAL_SERVER_ERROR

datatype error_code =
  AUTH_UNAUTHORIZED | AUTH_FORBIDDEN | AUTH_INVALID_TOKEN | AUTH_SESSION_EXPIRED
  | RESOURCE_NOT_FOUND | RESOURCE_ALREADY_EXISTS
  | VALIDATION_ERROR | INVALID_INPUT
  | PERMISSION_DENIED | INSUFFICIENT_LEVEL
  | INTERNAL_ERROR | DATABASE_ERROR

section \<open>Data model: relational rows, the key-value store, object storage\<close>

type_synonym bytes = "nat list"

text \<open>Text whose content matters is a JavaScript string: a list of UTF-16 code units.\<close>

type_synonym utf16 = "nat list"

text \<open>Rows of \<^verbatim>\<open>Users\<close> and \<^verbatim>\<open>Passkeys\<close> (docs/database-schema.sql).\<close>

record user =
  u_id :: string
  u_username :: string
  u_email :: string
  u_role :: string
  u_level :: nat

record passkey =
  pk_id :: string
  pk_user_id :: string
  pk_pubkey_blob :: bytes
  pk_sign_counter :: nat
  pk_created_at :: nat

record conversation =
  c_id :: nat
  c_user1_id :: string
  c_user2_id :: string
  c_created_at :: nat
  c_last_message_at :: nat
  c_last_message_excerpt :: "utf16 option"
  c_user1_unread_count :: nat
  c_user2_unread_count :: nat

record private_message =
  pm_id :: nat
  pm_conversation_id :: nat
  pm_author_id :: string
  pm_body :: utf16
  pm_created_at :: nat

text \<open>
  A table is the list of its rows; \<^verbatim>\<open>.first()\<close> of a query is the first matching row.
  The two \<open>seq\<close> fields are the rows of \<^verbatim>\<open>sqlite_sequence\<close>: the largest id each
  \<^verbatim>\<open>AUTOINCREMENT\<close> table has ever given out.
\<close>

record database =
  Users :: "user list"
  Passkeys :: "passkey list"
  Conversations :: "conversation list"
  PrivateMessages :: "private_message list"
  seq_Conversations :: nat
  seq_PrivateMessages :: nat

text \<open>
  The KV namespace maps a key to a value stored with its \<^verbatim>\<open>expirationTtl\<close>. Time does
  not pass in the model: an entry stays until it is deleted.
\<close>

record kv_entry =
  kv_value :: string
  expirationTtl :: nat

type_synonym KVNamespace = "string \<Rightarrow> kv_entry option"

definition kv_get :: "KVNamespace \<Rightarrow> string \<Rightarrow> string option" where
  "kv_get kv key = map_option kv_value (kv key)"

definition kv_put :: "KVNamespace \<Rightarrow> string \<Rightarrow> string \<Rightarrow> nat \<Rightarrow> KVNamespace" where
  "kv_put kv key v ttl = kv(key \<mapsto> \<lparr>kv_value = v, expirationTtl = ttl\<rparr>)"

definition kv_delete :: "KVNamespace \<Rightarrow> string \<Rightarrow> KVNamespace" where
  "kv_delete kv key = kv(key := None)"

text \<open>The bindings a handler reaches through \<^verbatim>\<open>c.env\<close>: the stores ...\<close>

record world =
  KV_SESSIONS :: KVNamespace
  DB :: database
  S3 :: "utf16 \<Rightarrow> bytes option"

text \<open>
  ... and the configuration. An environment variable may be absent, a boolean or a
  string; the handlers only test it for JavaScript truthiness.
\<close>

datatype env_flag = Unset | FlagBool bool | FlagString string

fun flag_truthy :: "env_flag \<Rightarrow> bool" where
  "flag_truthy Unset = False"
| "flag_truthy (FlagBool b) = b"
| "flag_truthy (FlagString s) = (s \<noteq> [])"

record config =
  RP_ID :: "string option"
  ORIGIN :: "string option"
  RP_NAME :: string
  REGISTER_ENABLED :: env_flag

text \<open>What a handler reads from the request URL.\<close>

record request =
  req_hostname :: string
  req_origin :: string

text \<open>JavaScript truthiness of a \<^verbatim>\<open>string | null | undefined\<close>.\<close>

fun truthy :: "string option \<Rightarrow> bool" where
  "truthy None = False"
| "truthy (Some s) = (s \<noteq> [])"

section \<open>Responses of the handlers\<close>

text \<open>A row of the message listing, and the pagination block sent with a page.\<close>

record message_view =
  mv_id :: nat
  mv_body :: utf16
  mv_created_at :: nat
  mv_author_username :: string

record pagination =
  pg_page :: nat
  pg_pageSize :: nat
  pg_total :: nat
  pg_totalPages :: nat

datatype payload =
  NoData
  | AuthenticationOptions string
  | RegistrationOptions string "string list"
  | VerifiedToken string
  | SessionInfo bool "user option"
  | MessageSent nat
  | MessagePage "message_view list" pagination

datatype api_response =
  SuccessResponse payload http_status
  | ErrorResponse error_code http_status

abbreviation errors_unauthorized :: api_response where
  "errors_unauthorized \<equiv> ErrorResponse AUTH_UNAUTHORIZED UNAUTHORIZED"

abbreviation errors_forbidden :: api_response where
  "errors_forbidden \<equiv> ErrorResponse AUTH_FORBIDDEN FORBIDDEN"

abbreviation errors_notFound :: api_response where
  "errors_notFound \<equiv> ErrorResponse RESOURCE_NOT_FOUND NOT_FOUND"

abbreviation errors_conflict :: api_response where
  "errors_conflict \<equiv> ErrorResponse RESOURCE_ALREADY_EXISTS CONFLICT"

abbreviation errors_validation :: api_response where
  "errors_validation \<equiv> ErrorResponse VALIDATION_ERROR UNPROCESSABLE_ENTITY"

abbreviation errors_internal :: api_response where
  "errors_internal \<equiv> ErrorResponse INTERNAL_ERROR INTERNAL_SERVER_ERROR"

section \<open>WebAuthn library boundary (@simplewebauthn/server)\<close>

text \<open>
  The ceremony responses arrive as JSON. Of a response the handlers read the
  credential id and the challenge inside \<^verbatim>\<open>clientDataJSON\<close>; decoding base64 and
  parsing JSON is the platform's work, so the response carries what that decoding
  yields: \<open>None\<close> when it throws, \<open>Some None\<close> when the parsed object has no
  challenge, \<open>Some (Some ch)\<close> otherwise. \<open>rsp_signCount\<close> is the signature counter
  the authenticator reports in its authenticator data.
\<close>

record response_json =
  rsp_id :: string
  rsp_clientData :: "string option option"
  rsp_signCount :: nat

text \<open>A request body: unparsable, or a JSON value that may be falsy.\<close>

datatype 'a json_body = InvalidJson | Json "'a option"

datatype 'a lib_result = Throws | Returns 'a

record registration_info =
  credentialPublicKey :: bytes
  credentialID :: string
  counter :: nat

record verified_registration =
  reg_verified :: bool
  registrationInfo :: "registration_info option"

record verified_authentication =
  auth_verified :: bool
  newCounter :: nat

record authenticator =
  a_credentialID :: string
  a_credentialPublicKey :: bytes
  a_counter :: nat

text \<open>
  The two verification functions are third-party code. They are parameters of the
  handlers: arguments are the response, the expected challenge, the expected origin,
  the expected relying-party id and, for authentication, the stored authenticator.
\<close>

type_synonym verifyRegistrationResponse_t =
  "response_json \<Rightarrow> string \<Rightarrow> string \<Rightarrow> string \<Rightarrow> verified_registration lib_result"

type_synonym verifyAuthenticationResponse_t =
  "response_json \<Rightarrow> string \<Rightarrow> string \<Rightarrow> string \<Rightarrow> authenticator
     \<Rightarrow> verified_authentication lib_result"

section \<open>Helpers of routes/auth.ts\<close>

definition CHALLENGE_TTL :: nat where
  "CHALLENGE_TTL = 300"

definition SESSION_TTL :: nat where
  "SESSION_TTL = 86400"

definition ADMIN_SESSION_TTL :: nat where
  "ADMIN_SESSION_TTL = 86400"

definition getRpID :: "config \<Rightarrow> request \<Rightarrow> string" where
  "getRpID cfg req =
     (case RP_ID cfg of None \<Rightarrow> req_hostname req
      | Some r \<Rightarrow> if r = [] then req_hostname req else r)"

definition getOrigin :: "config \<Rightarrow> request \<Rightarrow> string" where
  "getOrigin cfg req =
     (case ORIGIN cfg of None \<Rightarrow> req_origin req
      | Some r \<Rightarrow> if r = [] then req_origin req else r)"

definition extractChallengeFromClientData :: "response_json \<Rightarrow> string option" where
  "extractChallengeFromClientData response =
     (case rsp_clientData response of None \<Rightarrow> None | Some clientData \<Rightarrow> clientData)"

definition createSession :: "KVNamespace \<Rightarrow> string \<Rightarrow> string \<Rightarrow> nat \<Rightarrow> string \<times> KVNamespace" where
  \<comment> \<open>\<open>sessionToken\<close> is the value \<^verbatim>\<open>crypto.randomUUID()\<close> returns.\<close>
  "createSession kv sessionToken userId ttl =
     (sessionToken, kv_put kv (''session:'' @ sessionToken) userId ttl)"

definition storeChallenge :: "KVNamespace \<Rightarrow> string \<Rightarrow> string \<Rightarrow> KVNamespace" where
  "storeChallenge kv challenge v = kv_put kv (''challenge:'' @ challenge) v CHALLENGE_TTL"

definition getAndDeleteChallenge :: "KVNamespace \<Rightarrow> string \<Rightarrow> string option \<times> KVNamespace" where
  "getAndDeleteChallenge kv challenge =
     (let key = ''challenge:'' @ challenge;
          v = kv_get kv key
      in (v, if truthy v then kv_delete kv key else kv))"

text \<open>\<^verbatim>\<open>s.split(sep)\<close> for a one-character separator, and \<^verbatim>\<open>s.startsWith(p)\<close>.\<close>

fun split_on :: "char \<Rightarrow> string \<Rightarrow> string list" where
  "split_on sep [] = [[]]"
| "split_on sep (c # cs) =
     (if c = sep then [] # split_on sep cs
      else (case split_on sep cs of [] \<Rightarrow> [[c]] | w # ws \<Rightarrow> (c # w) # ws))"

definition startsWith :: "string \<Rightarrow> string \<Rightarrow> bool" where
  "startsWith s p = (take (length p) s = p)"

text \<open>\<^verbatim>\<open>authHeader.split(' ')[1]\<close>: \<open>None\<close> is \<^verbatim>\<open>undefined\<close>.\<close>

definition bearer_token :: "string \<Rightarrow> string option" where
  "bearer_token authHeader =
     (case split_on CHR '' '' authHeader of _ # token # _ \<Rightarrow> Some token | _ \<Rightarrow> None)"

section \<open>Credential lookup (lib/passkeys)\<close>

text \<open>
  Modelled from the spec: lib/passkeys is not among the sources; section 4.4 gives
  \<^verbatim>\<open>getCredentialById(id) -> Credential | None\<close>, a keyed lookup by credential id.
\<close>

definition getPasskeyById :: "database \<Rightarrow> string \<Rightarrow> passkey option" where
  "getPasskeyById db i = find (\<lambda>pk. pk_id pk = i) (Passkeys db)"

text \<open>
  Modelled from the spec: lib/passkeys is not among the sources; section 4.4 gives
  \<^verbatim>\<open>listCredentialsForUser(userId) -> []Credential\<close>, a keyed lookup by user id.
\<close>

definition getUserPasskeys :: "database \<Rightarrow> string \<Rightarrow> passkey list" where
  "getUserPasskeys db uid = filter (\<lambda>pk. pk_user_id pk = uid) (Passkeys db)"

definition select_user_by_id :: "database \<Rightarrow> string \<Rightarrow> user option" where
  \<comment> \<open>\<^verbatim>\<open>SELECT ... FROM Users WHERE id = ?\<close> with \<^verbatim>\<open>.first()\<close>\<close>
  "select_user_by_id db uid = find (\<lambda>u. u_id u = uid) (Users db)"

definition update_sign_counter :: "database \<Rightarrow> nat \<Rightarrow> string \<Rightarrow> database" where
  \<comment> \<open>\<^verbatim>\<open>UPDATE Passkeys SET sign_counter = ? WHERE id = ?\<close>\<close>
  "update_sign_counter db n i =
     db\<lparr>Passkeys := map (\<lambda>pk. if pk_id pk = i then pk\<lparr>pk_sign_counter := n\<rparr> else pk) (Passkeys db)\<rparr>"

definition insert_passkey :: "database \<Rightarrow> passkey \<Rightarrow> database lib_result" where
  \<comment> \<open>\<^verbatim>\<open>INSERT INTO Passkeys ...\<close>: the statement throws when the primary key is taken or
      the foreign key \<^verbatim>\<open>user_id REFERENCES Users(id)\<close> has no target.\<close>
  "insert_passkey db pk =
     (if pk_id pk \<in> set (map pk_id (Passkeys db)) \<or> pk_user_id pk \<notin> set (map u_id (Users db))
      then Throws
      else Returns (db\<lparr>Passkeys := Passkeys db @ [pk]\<rparr>))"

section \<open>Handlers of routes/auth.ts\<close>

text \<open>
  Each handler takes what the request carries and the stores, and returns the response
  with the stores as it leaves them. A value the platform draws at random
  (\<^verbatim>\<open>crypto.randomUUID()\<close>, the nonce inside the generated options) and the clock are
  inputs. \<^verbatim>\<open>getUser\<close> and \<^verbatim>\<open>getOrCreateUser\<close> of lib/passkeys are not among the
  sources and the handler is parametric in them.
\<close>

type_synonym getUser_t = "database \<Rightarrow> string \<Rightarrow> string \<Rightarrow> user option"

type_synonym getOrCreateUser_t = "database \<Rightarrow> string \<Rightarrow> string \<Rightarrow> user \<times> database"

definition post_register_challenge ::
  "getUser_t \<Rightarrow> getOrCreateUser_t \<Rightarrow> config \<Rightarrow> string \<Rightarrow> string \<times> string \<Rightarrow> world
     \<Rightarrow> api_response \<times> world" where
  \<comment> \<open>\<open>challenge\<close> is \<^verbatim>\<open>options.challenge\<close> of the generated registration options;
      the pair is the validated \<^verbatim>\<open>{username, email}\<close>.\<close>
  "post_register_challenge getUser getOrCreateUser cfg challenge valid_json w =
     (if \<not> flag_truthy (REGISTER_ENABLED cfg) then (errors_forbidden, w)
      else (case valid_json of (username, email) \<Rightarrow>
        (case getUser (DB w) username email of
           Some existingUser \<Rightarrow> (errors_conflict, w)
         | None \<Rightarrow>
            (case getOrCreateUser (DB w) username email of (usr, db1) \<Rightarrow>
               let userPasskeys = getUserPasskeys db1 (u_id usr);
                   kv1 = storeChallenge (KV_SESSIONS w) challenge (u_id usr)
               in (SuccessResponse (RegistrationOptions challenge (map pk_id userPasskeys)) OK,
                   w\<lparr>DB := db1, KV_SESSIONS := kv1\<rparr>)))))"

definition post_register_verify ::
  "verifyRegistrationResponse_t \<Rightarrow> config \<Rightarrow> request \<Rightarrow> nat \<Rightarrow> string
     \<Rightarrow> response_json json_body \<Rightarrow> world \<Rightarrow> api_response \<times> world" where
  \<comment> \<open>\<open>now\<close> is \<^verbatim>\<open>getCurrentTimestamp()\<close>, \<open>uuid\<close> the session token drawn.\<close>
  "post_register_verify verifyRegistrationResponse cfg req now uuid body w =
     (case body of
        InvalidJson \<Rightarrow> (errors_validation, w)
      | Json None \<Rightarrow> (errors_validation, w)
      | Json (Some response) \<Rightarrow>
         (case extractChallengeFromClientData response of
            None \<Rightarrow> (errors_validation, w)
          | Some expectedChallenge \<Rightarrow>
             if expectedChallenge = [] then (errors_validation, w)
             else
               (case getAndDeleteChallenge (KV_SESSIONS w) expectedChallenge of (userId_opt, kv1) \<Rightarrow>
                 let w1 = w\<lparr>KV_SESSIONS := kv1\<rparr> in
                 (case userId_opt of
                    None \<Rightarrow> (ErrorResponse AUTH_SESSION_EXPIRED BAD_REQUEST, w1)
                  | Some userId \<Rightarrow>
                     if userId = [] then (ErrorResponse AUTH_SESSION_EXPIRED BAD_REQUEST, w1)
                     else
                       (case verifyRegistrationResponse response expectedChallenge
                               (getOrigin cfg req) (getRpID cfg req) of
                          Throws \<Rightarrow> (ErrorResponse AUTH_UNAUTHORIZED BAD_REQUEST, w1)
                        | Returns verification \<Rightarrow>
                           (case registrationInfo verification of
                              None \<Rightarrow> (ErrorResponse AUTH_UNAUTHORIZED BAD_REQUEST, w1)
                            | Some info \<Rightarrow>
                               if \<not> reg_verified verification
                               then (ErrorResponse AUTH_UNAUTHORIZED BAD_REQUEST, w1)
                               else
                                 (case insert_passkey (DB w1)
                                         \<lparr>pk_id = credentialID info, pk_user_id = userId,
                                          pk_pubkey_blob = credentialPublicKey info,
                                          pk_sign_counter = counter info, pk_created_at = now\<rparr> of
                                    Throws \<Rightarrow> (ErrorResponse AUTH_UNAUTHORIZED BAD_REQUEST, w1)
                                  | Returns db2 \<Rightarrow>
                                     (case createSession (KV_SESSIONS w1) uuid userId SESSION_TTL of
                                        (sessionToken, kv2) \<Rightarrow>
                                          (SuccessResponse (VerifiedToken sessionToken) OK,
                                           w1\<lparr>DB := db2, KV_SESSIONS := kv2\<rparr>)))))))))"

definition post_login_challenge :: "string \<Rightarrow> world \<Rightarrow> api_response \<times> world" where
  \<comment> \<open>\<open>challenge\<close> is \<^verbatim>\<open>options.challenge\<close> of the generated authentication options.\<close>
  "post_login_challenge challenge w =
     (SuccessResponse (AuthenticationOptions challenge) OK,
      w\<lparr>KV_SESSIONS := storeChallenge (KV_SESSIONS w) challenge ''true''\<rparr>)"

definition post_login_verify ::
  "verifyAuthenticationResponse_t \<Rightarrow> config \<Rightarrow> request \<Rightarrow> string
     \<Rightarrow> response_json json_body \<Rightarrow> world \<Rightarrow> api_response \<times> world" where
  "post_login_verify verifyAuthenticationResponse cfg req uuid body w =
     (case body of
        InvalidJson \<Rightarrow> (errors_validation, w)
      | Json None \<Rightarrow> (errors_validation, w)
      | Json (Some response) \<Rightarrow>
         (case extractChallengeFromClientData response of
            None \<Rightarrow> (errors_validation, w)
          | Some challenge \<Rightarrow>
             if challenge = [] then (errors_validation, w)
             else
               (case getAndDeleteChallenge (KV_SESSIONS w) challenge of (expectedChallenge, kv1) \<Rightarrow>
                 let w1 = w\<lparr>KV_SESSIONS := kv1\<rparr> in
                 if \<not> truthy expectedChallenge
                 then (ErrorResponse AUTH_SESSION_EXPIRED BAD_REQUEST, w1)
                 else
                   (case getPasskeyById (DB w1) (rsp_id response) of
                      None \<Rightarrow> (errors_notFound, w1)
                    | Some pk \<Rightarrow>
                       (case verifyAuthenticationResponse response challenge
                               (getOrigin cfg req) (getRpID cfg req)
                               \<lparr>a_credentialID = pk_id pk,
                                a_credentialPublicKey = pk_pubkey_blob pk,
                                a_counter = pk_sign_counter pk\<rparr> of
                          Throws \<Rightarrow> (ErrorResponse AUTH_UNAUTHORIZED BAD_REQUEST, w1)
                        | Returns verification \<Rightarrow>
                           if \<not> auth_verified verification
                           then (ErrorResponse AUTH_UNAUTHORIZED BAD_REQUEST, w1)
                           else
                             let db2 = update_sign_counter (DB w1) (newCounter verification) (pk_id pk) in
                             (case createSession (KV_SESSIONS w1) uuid (pk_user_id pk) SESSION_TTL of
                                (sessionToken, kv2) \<Rightarrow>
                                  (SuccessResponse (VerifiedToken sessionToken) OK,
                                   w1\<lparr>DB := db2, KV_SESSIONS := kv2\<rparr>)))))))"

definition post_logout :: "string option \<Rightarrow> world \<Rightarrow> api_response \<times> world" where
  "post_logout authHeader w =
     (case authHeader of
        None \<Rightarrow> (errors_unauthorized, w)
      | Some h \<Rightarrow>
         if h = [] \<or> \<not> startsWith h ''Bearer '' then (errors_unauthorized, w)
         else
           (case bearer_token h of
              None \<Rightarrow> (errors_internal, w)
            | Some token \<Rightarrow>
               (SuccessResponse NoData OK,
                w\<lparr>KV_SESSIONS := kv_delete (KV_SESSIONS w) (''session:'' @ token)\<rparr>)))"

definition get_session :: "string option \<Rightarrow> world \<Rightarrow> api_response \<times> world" where
  "get_session authHeader w =
     (case authHeader of
        None \<Rightarrow> (SuccessResponse (SessionInfo False None) OK, w)
      | Some h \<Rightarrow>
         if h = [] \<or> \<not> startsWith h ''Bearer ''
         then (SuccessResponse (SessionInfo False None) OK, w)
         else
           let token = (case bearer_token h of None \<Rightarrow> ''undefined'' | Some t \<Rightarrow> t);
               userId = kv_get (KV_SESSIONS w) (''session:'' @ token)
           in (case userId of
                 None \<Rightarrow> (SuccessResponse (SessionInfo False None) OK, w)
               | Some uid \<Rightarrow>
                  if uid = [] then (SuccessResponse (SessionInfo False None) OK, w)
                  else
                    (case select_user_by_id (DB w) uid of
                       None \<Rightarrow>
                         (SuccessResponse (SessionInfo False None) OK,
                          w\<lparr>KV_SESSIONS := kv_delete (KV_SESSIONS w) (''session:'' @ token)\<rparr>)
                     | Some usr \<Rightarrow> (SuccessResponse (SessionInfo True (Some usr)) OK, w))))"

section \<open>Admin routes (routes/admin.ts): middleware and login\<close>

datatype middleware_result = Next user | Respond api_response

definition adminAuthMiddleware :: "string option \<Rightarrow> world \<Rightarrow> middleware_result \<times> world" where
  "adminAuthMiddleware authHeader w =
     (case authHeader of
        None \<Rightarrow> (Respond errors_unauthorized, w)
      | Some h \<Rightarrow>
         if h = [] then (Respond errors_unauthorized, w)
         else
           (case split_on CHR '' '' h of
              [p0, token] \<Rightarrow>
                if p0 \<noteq> ''Bearer'' then (Respond errors_unauthorized, w)
                else if token = [] then (Respond errors_unauthorized, w)
                else
                  (case kv_get (KV_SESSIONS w) (''session:'' @ token) of
                     None \<Rightarrow> (Respond errors_unauthorized, w)
                   | Some userId \<Rightarrow>
                      if userId = [] then (Respond errors_unauthorized, w)
                      else
                        (case select_user_by_id (DB w) userId of
                           None \<Rightarrow>
                             (Respond errors_unauthorized,
                              w\<lparr>KV_SESSIONS := kv_delete (KV_SESSIONS w) (''session:'' @ token)\<rparr>)
                         | Some usr \<Rightarrow>
                            if u_role usr \<noteq> ''admin'' \<and> u_username usr \<noteq> ''admin''
                            then (Respond errors_forbidden, w)
                            else (Next usr, w)))
            | _ \<Rightarrow> (Respond errors_unauthorized, w)))"

definition admin_post_login_challenge :: "string \<Rightarrow> world \<Rightarrow> api_response \<times> world" where
  "admin_post_login_challenge challenge w =
     (SuccessResponse (AuthenticationOptions challenge) OK,
      w\<lparr>KV_SESSIONS := kv_put (KV_SESSIONS w) (''challenge:'' @ challenge) ''true'' CHALLENGE_TTL\<rparr>)"

definition admin_post_login_verify ::
  "verifyAuthenticationResponse_t \<Rightarrow> config \<Rightarrow> request \<Rightarrow> string
     \<Rightarrow> response_json json_body \<Rightarrow> world \<Rightarrow> api_response \<times> world" where
  "admin_post_login_verify verifyAuthenticationResponse cfg req uuid body w =
     (case body of
        InvalidJson \<Rightarrow> (errors_validation, w)
      | Json None \<Rightarrow> (errors_validation, w)
      | Json (Some response) \<Rightarrow>
         (case extractChallengeFromClientData response of
            None \<Rightarrow> (errors_validation, w)
          | Some challenge \<Rightarrow>
             if challenge = [] then (errors_validation, w)
             else if \<not> truthy (kv_get (KV_SESSIONS w) (''challenge:'' @ challenge))
             then (ErrorResponse AUTH_SESSION_EXPIRED BAD_REQUEST, w)
             else
               (case getPasskeyById (DB w) (rsp_id response) of
                  None \<Rightarrow> (errors_notFound, w)
                | Some pk \<Rightarrow>
                   (case verifyAuthenticationResponse response challenge
                           (getOrigin cfg req) (getRpID cfg req)
                           \<lparr>a_credentialID = pk_id pk,
                            a_credentialPublicKey = pk_pubkey_blob pk,
                            a_counter = pk_sign_counter pk\<rparr> of
                      Throws \<Rightarrow> (ErrorResponse AUTH_UNAUTHORIZED BAD_REQUEST, w)
                    | Returns verification \<Rightarrow>
                       if \<not> auth_verified verification
                       then (ErrorResponse AUTH_UNAUTHORIZED BAD_REQUEST, w)
                       else
                         (case select_user_by_id (DB w) (pk_user_id pk) of
                            None \<Rightarrow> (errors_forbidden, w)
                          | Some usr \<Rightarrow>
                             if u_role usr \<noteq> ''admin'' \<and> u_username usr \<noteq> ''admin''
                             then (errors_forbidden, w)
                             else
                               let db2 = update_sign_counter (DB w) (newCounter verification) (pk_id pk);
                                   kv1 = kv_delete (KV_SESSIONS w) (''challenge:'' @ challenge);
                                   kv2 = kv_put kv1 (''session:'' @ uuid) (u_id usr) ADMIN_SESSION_TTL
                               in (SuccessResponse (VerifiedToken uuid) OK,
                                   w\<lparr>DB := db2, KV_SESSIONS := kv2\<rparr>))))))"

section \<open>Concrete stores for the examples\<close>

definition alice :: user where
  "alice = \<lparr>u_id = ''u-alice'', u_username = ''alice'', u_email = ''alice@example.com'',
            u_role = ''user'', u_level = 1\<rparr>"

definition empty_db :: database where
  "empty_db = \<lparr>Users = [], Passkeys = [], Conversations = [], PrivateMessages = [],
                seq_Conversations = 0, seq_PrivateMessages = 0\<rparr>"

definition w_dangling :: world where
  \<comment> \<open>a session whose user row is gone\<close>
  "w_dangling =
     \<lparr>KV_SESSIONS = Map.empty(''session:tok-1'' \<mapsto> \<lparr>kv_value = ''u-gone'', expirationTtl = 86400\<rparr>),
      DB = empty_db, S3 = Map.empty\<rparr>"

definition w_alice :: world where
  \<comment> \<open>alice, logged in with token \<^verbatim>\<open>tok-2\<close>\<close>
  "w_alice =
     \<lparr>KV_SESSIONS = Map.empty(''session:tok-2'' \<mapsto> \<lparr>kv_value = ''u-alice'', expirationTtl = 86400\<rparr>),
      DB = empty_db\<lparr>Users := [alice]\<rparr>, S3 = Map.empty\<rparr>"

definition w_empty :: world where
  "w_empty = \<lparr>KV_SESSIONS = Map.empty, DB = empty_db, S3 = Map.empty\<rparr>"

definition cfg_disabled :: config where
  "cfg_disabled = \<lparr>RP_ID = None, ORIGIN = None, RP_NAME = ''bbs'', REGISTER_ENABLED = Unset\<rparr>"

definition cfg_enabled :: config where
  "cfg_enabled =
     \<lparr>RP_ID = Some ''bbs.example'', ORIGIN = Some ''https://bbs.example'', RP_NAME = ''bbs'',
      REGISTER_ENABLED = FlagBool True\<rparr>"

definition req0 :: request where
  "req0 = \<lparr>req_hostname = ''bbs.example'', req_origin = ''https://bbs.example''\<rparr>"

definition mallory :: user where
  \<comment> \<open>an ordinary user who registered the user name \<^verbatim>\<open>admin\<close>\<close>
  "mallory = \<lparr>u_id = ''u-mallory'', u_username = ''admin'', u_email = ''m@example.com'',
              u_role = ''user'', u_level = 1\<rparr>"

definition key5 :: passkey where
  \<comment> \<open>alice's credential, stored counter 5\<close>
  "key5 = \<lparr>pk_id = ''cred-a'', pk_user_id = ''u-alice'', pk_pubkey_blob = [1, 2, 3],
           pk_sign_counter = 5, pk_created_at = 1000\<rparr>"

definition key_m :: passkey where
  "key_m = \<lparr>pk_id = ''cred-m'', pk_user_id = ''u-mallory'', pk_pubkey_blob = [4, 5, 6],
            pk_sign_counter = 0, pk_created_at = 1000\<rparr>"

definition w_login :: world where
  \<comment> \<open>alice and mallory registered, a login challenge \<^verbatim>\<open>c1\<close> issued\<close>
  "w_login =
     \<lparr>KV_SESSIONS = Map.empty(''challenge:c1'' \<mapsto> \<lparr>kv_value = ''true'', expirationTtl = 300\<rparr>),
      DB = empty_db\<lparr>Users := [alice, mallory], Passkeys := [key5, key_m]\<rparr>,
      S3 = Map.empty\<rparr>"

definition w_register :: world where
  \<comment> \<open>alice's row exists, a registration challenge \<^verbatim>\<open>c2\<close> bound to her id issued\<close>
  "w_register =
     \<lparr>KV_SESSIONS = Map.empty(''challenge:c2'' \<mapsto> \<lparr>kv_value = ''u-alice'', expirationTtl = 300\<rparr>),
      DB = empty_db\<lparr>Users := [alice]\<rparr>,
      S3 = Map.empty\<rparr>"

section \<open>The counter policy expected of the library\<close>

text \<open>
  The handlers never compare counters themselves: they hand the stored counter to
  \<^verbatim>\<open>verifyAuthenticationResponse\<close> and act on its verdict. A reported counter regresses
  when it is not greater than the stored one, both being zero excepted.
\<close>

definition counter_regression :: "nat \<Rightarrow> nat \<Rightarrow> bool" where
  "counter_regression reported stored = (\<not> stored < reported \<and> \<not> (reported = 0 \<and> stored = 0))"

definition rejects_counter_regression :: "verifyAuthenticationResponse_t \<Rightarrow> bool" where
  "rejects_counter_regression V =
     (\<forall>r ch origin rpid a. counter_regression (rsp_signCount r) (a_counter a) \<longrightarrow>
        (case V r ch origin rpid a of Throws \<Rightarrow> True | Returns v \<Rightarrow> \<not> auth_verified v))"

text \<open>Stand-ins for the library in the examples: they check nothing but the counter.\<close>

definition counter_checking_verifier :: verifyAuthenticationResponse_t where
  "counter_checking_verifier r ch origin rpid a =
     (if counter_regression (rsp_signCount r) (a_counter a) then Throws
      else Returns \<lparr>auth_verified = True, newCounter = rsp_signCount r\<rparr>)"

definition accepting_registration_verifier :: verifyRegistrationResponse_t where
  "accepting_registration_verifier r ch origin rpid =
     Returns \<lparr>reg_verified = True,
              registrationInfo = Some \<lparr>credentialPublicKey = [7, 8, 9], credentialID = rsp_id r,
                                       counter = rsp_signCount r\<rparr>\<rparr>"

definition w_alice_login :: world where
  \<comment> \<open>as \<open>w_login\<close>, with alice also holding the session \<^verbatim>\<open>tok-2\<close>\<close>
  "w_alice_login =
     w_login\<lparr>KV_SESSIONS :=
       (KV_SESSIONS w_login)(''session:tok-2'' \<mapsto> \<lparr>kv_value = ''u-alice'', expirationTtl = 86400\<rparr>)\<rparr>"

definition r_A :: response_json where
  \<comment> \<open>alice's credential answering \<^verbatim>\<open>c1\<close>, counter 6\<close>
  "r_A = \<lparr>rsp_id = ''cred-a'', rsp_clientData = Some (Some ''c1''), rsp_signCount = 6\<rparr>"

definition r_B :: response_json where
  \<comment> \<open>alice's credential answering \<^verbatim>\<open>c1\<close>, counter 4\<close>
  "r_B = \<lparr>rsp_id = ''cred-a'', rsp_clientData = Some (Some ''c1''), rsp_signCount = 4\<rparr>"

definition r_m :: response_json where
  "r_m = \<lparr>rsp_id = ''cred-m'', rsp_clientData = Some (Some ''c1''), rsp_signCount = 1\<rparr>"

definition r_reg :: response_json where
  \<comment> \<open>a new credential answering the registration challenge \<^verbatim>\<open>c2\<close>\<close>
  "r_reg = \<lparr>rsp_id = ''cred-new'', rsp_clientData = Some (Some ''c2''), rsp_signCount = 0\<rparr>"

section \<open>Object storage client (lib/s3)\<close>

text \<open>
  The client signs a request and performs it; what reaches the model is the bucket as a
  map from keys to contents. \<^verbatim>\<open>get\<close> answers \<^verbatim>\<open>null\<close> on 404 and otherwise an object
  whose \<^verbatim>\<open>body\<close> is the response stream, taken to be present on a 200 response.
  Requests that fail for other reasons are outside the model.
\<close>

record s3_object =
  obj_body :: "bytes option"
  obj_size :: nat

definition s3_put :: "(utf16 \<Rightarrow> bytes option) \<Rightarrow> utf16 \<Rightarrow> bytes \<Rightarrow> (utf16 \<Rightarrow> bytes option)" where
  "s3_put s3 key body = s3(key \<mapsto> body)"

definition s3_get :: "(utf16 \<Rightarrow> bytes option) \<Rightarrow> utf16 \<Rightarrow> s3_object option" where
  "s3_get s3 key =
     (case s3 key of None \<Rightarrow> None
      | Some content \<Rightarrow> Some \<lparr>obj_body = Some content, obj_size = length content\<rparr>)"

section \<open>Private messages (routes/messages.ts)\<close>

text \<open>
  \<^verbatim>\<open>TextEncoder.encode\<close> and \<^verbatim>\<open>TextDecoder.decode\<close> are the platform's; the handlers
  are parametric in them. A string literal of the source is read as code units.
\<close>

definition utf16_of :: "string \<Rightarrow> utf16" where
  "utf16_of s = map of_char s"

text \<open>
  An \<^verbatim>\<open>INTEGER PRIMARY KEY AUTOINCREMENT\<close> column takes an id above every id in the
  table and above every id the table ever held, which \<^verbatim>\<open>sqlite_sequence\<close> records.
\<close>

definition next_id :: "nat list \<Rightarrow> nat \<Rightarrow> nat" where
  "next_id ids seq = Suc (max seq (fold max ids 0))"

text \<open>The largest integer the database takes for \<^verbatim>\<open>OFFSET\<close>.\<close>

definition MAX_SQL_INTEGER :: nat where
  "MAX_SQL_INTEGER = 9223372036854775807"

text \<open>\<^verbatim>\<open>[a, b].sort()\<close> on two strings: the default comparison orders them as strings.\<close>

definition sort_pair :: "string \<Rightarrow> string \<Rightarrow> string \<times> string" where
  "sort_pair a b = (if b < a then (b, a) else (a, b))"

text \<open>
  \<^verbatim>\<open>body.replace(/<[^>]*>?/gm, '')\<close>: from each \<^verbatim>\<open><\<close> everything up to and including the
  next \<^verbatim>\<open>>\<close> is removed, or up to the end when there is none.
\<close>

fun strip_tags_from :: "bool \<Rightarrow> utf16 \<Rightarrow> utf16" where
  "strip_tags_from in_tag [] = []"
| "strip_tags_from False (c # cs) =
     (if c = of_char CHR ''<'' then strip_tags_from True cs else c # strip_tags_from False cs)"
| "strip_tags_from True (c # cs) =
     (if c = of_char CHR ''>'' then strip_tags_from False cs else strip_tags_from True cs)"

definition insert_conversation ::
  "database \<Rightarrow> string \<Rightarrow> string \<Rightarrow> nat \<Rightarrow> (nat \<times> database) lib_result" where
  \<comment> \<open>\<^verbatim>\<open>INSERT INTO Conversations (user1_id, user2_id, created_at, last_message_at)\<close>:
      throws on a missing foreign-key target or a taken \<^verbatim>\<open>UNIQUE (user1_id, user2_id)\<close>;
      the other columns take their defaults. Returns \<^verbatim>\<open>meta.last_row_id\<close>.\<close>
  "insert_conversation db user1_id user2_id now =
     (if user1_id \<notin> set (map u_id (Users db)) \<or> user2_id \<notin> set (map u_id (Users db))
         \<or> (\<exists>c \<in> set (Conversations db). c_user1_id c = user1_id \<and> c_user2_id c = user2_id)
      then Throws
      else
        let new_id = next_id (map c_id (Conversations db)) (seq_Conversations db) in
        Returns (new_id,
          db\<lparr>Conversations := Conversations db @
               [\<lparr>c_id = new_id, c_user1_id = user1_id, c_user2_id = user2_id,
                 c_created_at = now, c_last_message_at = now, c_last_message_excerpt = None,
                 c_user1_unread_count = 0, c_user2_unread_count = 0\<rparr>],
             seq_Conversations := new_id\<rparr>))"

definition insert_private_message ::
  "database \<Rightarrow> nat \<Rightarrow> string \<Rightarrow> utf16 \<Rightarrow> nat \<Rightarrow> database lib_result" where
  \<comment> \<open>\<^verbatim>\<open>INSERT INTO PrivateMessages (conversation_id, author_id, body, created_at)\<close>\<close>
  "insert_private_message db conversationId author_id body now =
     (if conversationId \<notin> set (map c_id (Conversations db)) \<or> author_id \<notin> set (map u_id (Users db))
      then Throws
      else
        let new_id = next_id (map pm_id (PrivateMessages db)) (seq_PrivateMessages db) in
        Returns (db\<lparr>PrivateMessages := PrivateMessages db @
             [\<lparr>pm_id = new_id,
               pm_conversation_id = conversationId, pm_author_id = author_id,
               pm_body = body, pm_created_at = now\<rparr>],
           seq_PrivateMessages := new_id\<rparr>))"

definition touch_conversation :: "database \<Rightarrow> nat \<Rightarrow> utf16 \<Rightarrow> bool \<Rightarrow> nat \<Rightarrow> database" where
  \<comment> \<open>\<^verbatim>\<open>UPDATE Conversations SET last_message_at = ?, last_message_excerpt = ?,
      <field> = <field> + 1 WHERE id = ?\<close>; \<open>bump_user2\<close> says which unread counter.\<close>
  "touch_conversation db now excerpt bump_user2 conversationId =
     db\<lparr>Conversations := map (\<lambda>c.
         if c_id c = conversationId
         then (if bump_user2
               then c\<lparr>c_last_message_at := now, c_last_message_excerpt := Some excerpt,
                      c_user2_unread_count := c_user2_unread_count c + 1\<rparr>
               else c\<lparr>c_last_message_at := now, c_last_message_excerpt := Some excerpt,
                      c_user1_unread_count := c_user1_unread_count c + 1\<rparr>)
         else c) (Conversations db)\<rparr>"

definition clear_unread :: "database \<Rightarrow> bool \<Rightarrow> nat \<Rightarrow> database" where
  \<comment> \<open>\<^verbatim>\<open>UPDATE Conversations SET <field> = 0 WHERE id = ?\<close>\<close>
  "clear_unread db clear_user1 conversationId =
     db\<lparr>Conversations := map (\<lambda>c.
         if c_id c = conversationId
         then (if clear_user1 then c\<lparr>c_user1_unread_count := 0\<rparr>
               else c\<lparr>c_user2_unread_count := 0\<rparr>)
         else c) (Conversations db)\<rparr>"

definition post_message ::
  "(utf16 \<Rightarrow> bytes) \<Rightarrow> user \<Rightarrow> nat \<Rightarrow> string \<Rightarrow> string \<times> utf16 \<Rightarrow> world
     \<Rightarrow> api_response \<times> world" where
  \<comment> \<open>\<open>usr\<close> is the authenticated user the middleware attached, \<open>now\<close> the clock in
      seconds, \<open>uuid\<close> the value \<^verbatim>\<open>crypto.randomUUID()\<close> returns; the pair is the validated
      \<^verbatim>\<open>{recipientUsername, body}\<close>. A statement that throws inside the \<^verbatim>\<open>try\<close> leaves
      what was written before it.\<close>
  "post_message encode usr now uuid valid_json w =
     (case valid_json of (recipientUsername, body) \<Rightarrow>
       (case find (\<lambda>u. u_username u = recipientUsername) (Users (DB w)) of
          None \<Rightarrow> (errors_notFound, w)
        | Some recipient \<Rightarrow>
           if u_id recipient = u_id usr then (errors_validation, w)
           else
             (case sort_pair (u_id usr) (u_id recipient) of (user1_id, user2_id) \<Rightarrow>
               (case (case find (\<lambda>c. c_user1_id c = user1_id \<and> c_user2_id c = user2_id)
                                (Conversations (DB w)) of
                        Some conversation \<Rightarrow> Returns (c_id conversation, DB w)
                      | None \<Rightarrow> insert_conversation (DB w) user1_id user2_id now) of
                  Throws \<Rightarrow> (errors_internal, w)
                | Returns (conversationId, db1) \<Rightarrow>
                   let bodyS3Key = utf16_of (''pm-body/'' @ uuid);
                       w1 = w\<lparr>DB := db1, S3 := s3_put (S3 w) bodyS3Key (encode body)\<rparr>
                   in (case insert_private_message db1 conversationId (u_id usr) bodyS3Key now of
                         Throws \<Rightarrow> (errors_internal, w1)
                       | Returns db2 \<Rightarrow>
                          let excerpt = take 50 (strip_tags_from False body);
                              db3 = touch_conversation db2 now excerpt (user1_id = u_id usr)
                                      conversationId
                          in (SuccessResponse (MessageSent conversationId) CREATED,
                              w1\<lparr>DB := db3\<rparr>))))))"

definition resolve_body :: "(bytes \<Rightarrow> utf16) \<Rightarrow> (utf16 \<Rightarrow> bytes option) \<Rightarrow> message_view \<Rightarrow> message_view" where
  \<comment> \<open>the callback mapped over the page: a body shorter than 100 code units that
      contains \<^verbatim>\<open>/\<close> is taken for an object key\<close>
  "resolve_body decode s3 msg =
     (let isS3Key = (length (mv_body msg) < 100 \<and> of_char CHR ''/'' \<in> set (mv_body msg)) in
      if isS3Key then
        (case s3_get s3 (mv_body msg) of
           None \<Rightarrow> msg
         | Some obj \<Rightarrow>
            (case obj_body obj of
               None \<Rightarrow> msg
             | Some content \<Rightarrow> msg\<lparr>mv_body := decode content\<rparr>))
      else msg)"

definition select_messages :: "database \<Rightarrow> nat \<Rightarrow> message_view list" where
  \<comment> \<open>\<^verbatim>\<open>SELECT pm.id, pm.body, pm.created_at, u.username FROM PrivateMessages pm
      JOIN Users u ON pm.author_id = u.id WHERE pm.conversation_id = ?
      ORDER BY pm.created_at ASC\<close>, before \<^verbatim>\<open>LIMIT\<close> and \<^verbatim>\<open>OFFSET\<close>; rows with equal
      time stamps keep their table order.\<close>
  "select_messages db conversationId =
     sort_key mv_created_at
       (concat (map (\<lambda>pm.
           map (\<lambda>u. \<lparr>mv_id = pm_id pm, mv_body = pm_body pm, mv_created_at = pm_created_at pm,
                      mv_author_username = u_username u\<rparr>)
               (filter (\<lambda>u. u_id u = pm_author_id pm) (Users db)))
         (filter (\<lambda>pm. pm_conversation_id pm = conversationId) (PrivateMessages db))))"

definition get_messages ::
  "(bytes \<Rightarrow> utf16) \<Rightarrow> user \<Rightarrow> nat \<Rightarrow> nat \<Rightarrow> nat \<Rightarrow> world \<Rightarrow> api_response \<times> world" where
  \<comment> \<open>\<open>page\<close> and \<open>pageSize\<close> are the validated query values: \<open>page\<close> at least 1,
      \<open>pageSize\<close> from 1 to 100. The listing query throws when the offset bound to it is
      beyond the integers the database takes, and the \<^verbatim>\<open>catch\<close> answers Internal Error
      before the unread counter is touched. Below that bound an offset too large for
      exact JavaScript arithmetic still lies beyond every row.\<close>
  "get_messages decode usr conversationId page pageSize w =
     (let offset = (page - 1) * pageSize in
      case find (\<lambda>c. c_id c = conversationId) (Conversations (DB w)) of
        None \<Rightarrow> (errors_forbidden, w)
      | Some convCheck \<Rightarrow>
         if c_user1_id convCheck \<noteq> u_id usr \<and> c_user2_id convCheck \<noteq> u_id usr
         then (errors_forbidden, w)
         else if MAX_SQL_INTEGER < offset then (errors_internal, w)
         else
           let messages = take pageSize (drop offset (select_messages (DB w) conversationId));
               total = length (filter (\<lambda>pm. pm_conversation_id pm = conversationId)
                                 (PrivateMessages (DB w)));
               messagesWithBody = map (resolve_body decode (S3 w)) messages;
               db1 = clear_unread (DB w) (c_user1_id convCheck = u_id usr) conversationId
           in (SuccessResponse
                 (MessagePage messagesWithBody
                    \<lparr>pg_page = page, pg_pageSize = pageSize, pg_total = total,
                     pg_totalPages = (total + pageSize - 1) div pageSize\<rparr>) OK,
               w\<lparr>DB := db1\<rparr>))"

section \<open>The platform's text codec\<close>

text \<open>
  \<^verbatim>\<open>new TextEncoder().encode\<close> and \<^verbatim>\<open>new TextDecoder().decode\<close> after the WHATWG
  Encoding standard, for the examples. Encoding first reads the code units as scalar
  values, a surrogate without its partner becoming U+FFFD, and writes each in UTF-8.
\<close>

definition is_high_surrogate :: "nat \<Rightarrow> bool" where
  "is_high_surrogate u = (55296 \<le> u \<and> u < 56320)"

definition is_low_surrogate :: "nat \<Rightarrow> bool" where
  "is_low_surrogate u = (56320 \<le> u \<and> u < 57344)"

fun scalar_values :: "utf16 \<Rightarrow> nat list" where
  "scalar_values [] = []"
| "scalar_values [u] = (if is_high_surrogate u \<or> is_low_surrogate u then [65533] else [u])"
| "scalar_values (u # l # us) =
     (if is_high_surrogate u
      then (if is_low_surrogate l
            then (65536 + (u - 55296) * 1024 + (l - 56320)) # scalar_values us
            else 65533 # scalar_values (l # us))
      else if is_low_surrogate u then 65533 # scalar_values (l # us)
      else u # scalar_values (l # us))"

definition utf8_bytes :: "nat \<Rightarrow> bytes" where
  "utf8_bytes c =
     (if c < 128 then [c]
      else if c < 2048 then [192 + c div 64, 128 + c mod 64]
      else if c < 65536 then [224 + c div 4096, 128 + (c div 64) mod 64, 128 + c mod 64]
      else [240 + c div 262144, 128 + (c div 4096) mod 64, 128 + (c div 64) mod 64,
            128 + c mod 64])"

definition TextEncoder_encode :: "utf16 \<Rightarrow> bytes" where
  "TextEncoder_encode s = concat (map utf8_bytes (scalar_values s))"

text \<open>
  Decoding: a byte that cannot continue the sequence under way ends it with U+FFFD and
  is read again as a first byte; input that ends inside a sequence ends with U+FFFD.
\<close>

definition in_range :: "nat \<Rightarrow> nat \<Rightarrow> nat \<Rightarrow> bool" where
  "in_range lo hi b = (lo \<le> b \<and> b \<le> hi)"

fun utf8_decode :: "bytes \<Rightarrow> nat list" where
  "utf8_decode [] = []"
| "utf8_decode (b # bs) =
     (if b < 128 then b # utf8_decode bs
      else if in_range 194 223 b then
        (case bs of
           [] \<Rightarrow> [65533]
         | c1 # r1 \<Rightarrow>
            if in_range 128 191 c1 then ((b - 192) * 64 + (c1 - 128)) # utf8_decode r1
            else 65533 # utf8_decode bs)
      else if in_range 224 239 b then
        (case bs of
           [] \<Rightarrow> [65533]
         | c1 # r1 \<Rightarrow>
            if in_range (if b = 224 then 160 else 128) (if b = 237 then 159 else 191) c1 then
              (case r1 of
                 [] \<Rightarrow> [65533]
               | c2 # r2 \<Rightarrow>
                  if in_range 128 191 c2
                  then ((b - 224) * 4096 + (c1 - 128) * 64 + (c2 - 128)) # utf8_decode r2
                  else 65533 # utf8_decode r1)
            else 65533 # utf8_decode bs)
      else if in_range 240 244 b then
        (case bs of
           [] \<Rightarrow> [65533]
         | c1 # r1 \<Rightarrow>
            if in_range (if b = 240 then 144 else 128) (if b = 244 then 143 else 191) c1 then
              (case r1 of
                 [] \<Rightarrow> [65533]
               | c2 # r2 \<Rightarrow>
                  if in_range 128 191 c2 then
                    (case r2 of
                       [] \<Rightarrow> [65533]
                     | c3 # r3 \<Rightarrow>
                        if in_range 128 191 c3
                        then ((b - 240) * 262144 + (c1 - 128) * 4096 + (c2 - 128) * 64
                                + (c3 - 128)) # utf8_decode r3
                        else 65533 # utf8_decode r2)
                  else 65533 # utf8_decode r1)
            else 65533 # utf8_decode bs)
      else 65533 # utf8_decode bs)"

definition utf16_units :: "nat \<Rightarrow> utf16" where
  "utf16_units c =
     (if c < 65536 then [c]
      else [55296 + (c - 65536) div 1024, 56320 + (c - 65536) mod 1024])"

text \<open>
  A decoder made with no options has \<^verbatim>\<open>ignoreBOM\<close> false: a byte order mark at the
  start of the input is not part of the output.
\<close>

definition TextDecoder_decode :: "bytes \<Rightarrow> utf16" where
  "TextDecoder_decode bs =
     (let cps = utf8_decode bs
      in concat (map utf16_units (case cps of [] \<Rightarrow> [] | c # rest \<Rightarrow> if c = 65279 then rest else cps)))"

text \<open>For the message example: two users, a drawn UUID and two texts.\<close>

definition bob :: user where
  "bob = \<lparr>u_id = ''u-bob'', u_username = ''bob'', u_email = ''bob@example.com'',
          u_role = ''user'', u_level = 1\<rparr>"

definition w_pm :: world where
  "w_pm = \<lparr>KV_SESSIONS = Map.empty, DB = empty_db\<lparr>Users := [alice, bob]\<rparr>, S3 = Map.empty\<rparr>"

definition uuid0 :: string where
  "uuid0 = ''123e4567-e89b-42d3-a456-426614174000''"

definition text_hello :: utf16 where
  \<comment> \<open>\<^verbatim>\<open>hello\<close>\<close>
  "text_hello = [104, 101, 108, 108, 111]"

definition text_bom_hi :: utf16 where
  \<comment> \<open>U+FEFF followed by \<^verbatim>\<open>hi\<close>\<close>
  "text_bom_hi = [65279, 104, 105]"

section \<open>The awaited steps of verifying a registration\<close>

text \<open>
  \<^verbatim>\<open>getAndDeleteChallenge\<close> is two awaited calls on the namespace, \<^verbatim>\<open>await kv.get(key)\<close>
  and, when the value is truthy, \<^verbatim>\<open>await kv.delete(key)\<close>. A handler gives way to other
  requests at an \<^verbatim>\<open>await\<close>, so the two are steps of their own here; what the handler
  does before the first and after the second is kept together.
\<close>

definition challenge_read :: "KVNamespace \<Rightarrow> string \<Rightarrow> string option" where
  "challenge_read kv challenge = kv_get kv (''challenge:'' @ challenge)"

definition challenge_drop :: "KVNamespace \<Rightarrow> string \<Rightarrow> string option \<Rightarrow> KVNamespace" where
  "challenge_drop kv challenge v =
     (if truthy v then kv_delete kv (''challenge:'' @ challenge) else kv)"

definition request_challenge :: "response_json json_body \<Rightarrow> (response_json \<times> string) option" where
  \<comment> \<open>the handler up to the lookup: \<open>None\<close> is the validation error\<close>
  "request_challenge body =
     (case body of
        InvalidJson \<Rightarrow> None
      | Json None \<Rightarrow> None
      | Json (Some response) \<Rightarrow>
         (case extractChallengeFromClientData response of
            None \<Rightarrow> None
          | Some expectedChallenge \<Rightarrow>
             if expectedChallenge = [] then None else Some (response, expectedChallenge)))"

definition register_verify_rest ::
  "verifyRegistrationResponse_t \<Rightarrow> config \<Rightarrow> request \<Rightarrow> nat \<Rightarrow> string
     \<Rightarrow> response_json \<Rightarrow> string \<Rightarrow> string option \<Rightarrow> world \<Rightarrow> api_response \<times> world" where
  \<comment> \<open>the handler from \<^verbatim>\<open>if (!userId)\<close> on, given what the lookup returned\<close>
  "register_verify_rest verifyRegistrationResponse cfg req now uuid response expectedChallenge
       userId_opt w1 =
     (case userId_opt of
        None \<Rightarrow> (ErrorResponse AUTH_SESSION_EXPIRED BAD_REQUEST, w1)
      | Some userId \<Rightarrow>
         if userId = [] then (ErrorResponse AUTH_SESSION_EXPIRED BAD_REQUEST, w1)
         else
           (case verifyRegistrationResponse response expectedChallenge
                   (getOrigin cfg req) (getRpID cfg req) of
              Throws \<Rightarrow> (ErrorResponse AUTH_UNAUTHORIZED BAD_REQUEST, w1)
            | Returns verification \<Rightarrow>
               (case registrationInfo verification of
                  None \<Rightarrow> (ErrorResponse AUTH_UNAUTHORIZED BAD_REQUEST, w1)
                | Some info \<Rightarrow>
                   if \<not> reg_verified verification
                   then (ErrorResponse AUTH_UNAUTHORIZED BAD_REQUEST, w1)
                   else
                     (case insert_passkey (DB w1)
                             \<lparr>pk_id = credentialID info, pk_user_id = userId,
                              pk_pubkey_blob = credentialPublicKey info,
                              pk_sign_counter = counter info, pk_created_at = now\<rparr> of
                        Throws \<Rightarrow> (ErrorResponse AUTH_UNAUTHORIZED BAD_REQUEST, w1)
                      | Returns db2 \<Rightarrow>
                         (case createSession (KV_SESSIONS w1) uuid userId SESSION_TTL of
                            (sessionToken, kv2) \<Rightarrow>
                              (SuccessResponse (VerifiedToken sessionToken) OK,
                               w1\<lparr>DB := db2, KV_SESSIONS := kv2\<rparr>))))))"

text \<open>
  One call of the handler in flight: the clock and the token it draws, its body, and
  where it stands. \<open>AtDrop v\<close> has read \<open>v\<close> and not yet deleted; \<open>AtRest v\<close> is
  past \<^verbatim>\<open>getAndDeleteChallenge\<close>, which returned \<open>v\<close>.
\<close>

record verify_call =
  vc_now :: nat
  vc_uuid :: string
  vc_body :: "response_json json_body"

datatype verify_pc = AtRead | AtDrop "string option" | AtRest "string option" | Answered api_response

definition verify_step ::
  "verifyRegistrationResponse_t \<Rightarrow> config \<Rightarrow> request \<Rightarrow> verify_call \<Rightarrow> verify_pc \<Rightarrow> world
     \<Rightarrow> verify_pc \<times> world" where
  "verify_step V cfg req call pc w =
     (case pc of
        Answered r \<Rightarrow> (Answered r, w)
      | _ \<Rightarrow>
        (case request_challenge (vc_body call) of
           None \<Rightarrow> (Answered errors_validation, w)
         | Some (response, challenge) \<Rightarrow>
            (case pc of
               AtRead \<Rightarrow> (AtDrop (challenge_read (KV_SESSIONS w) challenge), w)
             | AtDrop v \<Rightarrow>
                 (AtRest v, w\<lparr>KV_SESSIONS := challenge_drop (KV_SESSIONS w) challenge v\<rparr>)
             | AtRest v \<Rightarrow>
                 (case register_verify_rest V cfg req (vc_now call) (vc_uuid call)
                         response challenge v w of
                    (r, w') \<Rightarrow> (Answered r, w'))
             | Answered r \<Rightarrow> (Answered r, w))))"

text \<open>
  Two calls against the same stores. A schedule lists whose step comes next: \<open>False\<close>
  the first call's, \<open>True\<close> the second's.
\<close>

fun run_schedule ::
  "verifyRegistrationResponse_t \<Rightarrow> config \<Rightarrow> request \<Rightarrow> verify_call \<Rightarrow> verify_call
     \<Rightarrow> bool list \<Rightarrow> verify_pc \<times> verify_pc \<times> world \<Rightarrow> verify_pc \<times> verify_pc \<times> world" where
  "run_schedule V cfg req c1 c2 [] st = st"
| "run_schedule V cfg req c1 c2 (second # sched) (pc1, pc2, w) =
     (if second
      then (case verify_step V cfg req c2 pc2 w of
              (pc2', w') \<Rightarrow> run_schedule V cfg req c1 c2 sched (pc1, pc2', w'))
      else (case verify_step V cfg req c1 pc1 w of
              (pc1', w') \<Rightarrow> run_schedule V cfg req c1 c2 sched (pc1', pc2, w')))"

text \<open>Two registrations answering the same nonce \<^verbatim>\<open>c2\<close> with different new credentials.\<close>

definition r_reg_b :: response_json where
  "r_reg_b = \<lparr>rsp_id = ''cred-other'', rsp_clientData = Some (Some ''c2''), rsp_signCount = 0\<rparr>"

definition call_a :: verify_call where
  "call_a = \<lparr>vc_now = 2000, vc_uuid = ''tok-5'', vc_body = Json (Some r_reg)\<rparr>"

definition call_b :: verify_call where
  "call_b = \<lparr>vc_now = 2000, vc_uuid = ''tok-6'', vc_body = Json (Some r_reg_b)\<rparr>"

section \<open>What is expected of user creation\<close>

text \<open>
  \<^verbatim>\<open>getOrCreateUser\<close> is expected to return a user that is a row of the database it
  leaves.
\<close>

definition returns_stored_user :: "getOrCreateUser_t \<Rightarrow> bool" where
  "returns_stored_user getOrCreateUser =
     (\<forall>db username email.
        fst (getOrCreateUser db username email)
          \<in> set (Users (snd (getOrCreateUser db username email))))"

text \<open>
  Stand-ins for lib/passkeys in the examples: a lookup by user name or e-mail, and a
  creation that appends a row when that lookup finds none.
\<close>

definition getUser_by_name_or_email :: getUser_t where
  "getUser_by_name_or_email db username email =
     find (\<lambda>u. u_username u = username \<or> u_email u = email) (Users db)"

definition getOrCreateUser_appending :: getOrCreateUser_t where
  "getOrCreateUser_appending db username email =
     (case find (\<lambda>u. u_username u = username \<or> u_email u = email) (Users db) of
        Some u \<Rightarrow> (u, db)
      | None \<Rightarrow>
         (let u = \<lparr>u_id = ''u-'' @ username, u_username = username, u_email = email,
                    u_role = ''user'', u_level = 1\<rparr>
          in (u, db\<lparr>Users := Users db @ [u]\<rparr>)))"

section \<open>Facts about header parsing\<close>

lemma split_on_not_Nil: "split_on sep s \<noteq> []"
  by (induction s) (auto split: list.splits)

lemma split_on_no_sep: "sep \<notin> set s \<Longrightarrow> split_on sep s = [s]"
  by (induction s) auto

lemma hd_split_on: "hd (split_on sep s) = takeWhile (\<lambda>c. c \<noteq> sep) s"
  by (induction s) (auto split: list.splits simp: split_on_not_Nil)

lemma split_on_Bearer:
  "split_on CHR '' '' (''Bearer '' @ t) = ''Bearer'' # split_on CHR '' '' t"
  by simp

lemma bearer_token_Bearer:
  "bearer_token (''Bearer '' @ t) = Some (takeWhile (\<lambda>c. c \<noteq> CHR '' '') t)"
proof -
  obtain x xs where "split_on CHR '' '' t = x # xs"
    using split_on_not_Nil by (cases "split_on CHR '' '' t") auto
  moreover from this have "x = takeWhile (\<lambda>c. c \<noteq> CHR '' '') t"
    using hd_split_on [of "CHR '' ''" t] by simp
  ultimately show ?thesis
    unfolding bearer_token_def split_on_Bearer by simp
qed

lemma startsWith_Bearer: "startsWith (''Bearer '' @ t) ''Bearer ''"
  by (simp add: startsWith_def)

lemma startsWith_BearerD:
  assumes "startsWith h ''Bearer ''"
  shows "\<exists>t. h = ''Bearer '' @ t"
proof -
  have "take (length ''Bearer '') h @ drop (length ''Bearer '') h = h"
    by (rule append_take_drop_id)
  with assms have "''Bearer '' @ drop (length ''Bearer '') h = h"
    unfolding startsWith_def by metis
  then show ?thesis by metis
qed

section \<open>Logout\<close>

text \<open>
  C8. Destroying a session is idempotent. For every token, logging out with
  \<^verbatim>\<open>Authorization: Bearer <token>\<close> succeeds, leaves no session under the key the
  handler derives from the header (the text up to the first space, which is the whole
  token when it has none), and logging out again with the same header succeeds again
  and changes nothing: the key being absent is not an error.
\<close>

theorem destroySession_idempotent:
  "\<exists>w1. post_logout (Some (''Bearer '' @ token)) w = (SuccessResponse NoData OK, w1)
     \<and> kv_get (KV_SESSIONS w1) (''session:'' @ takeWhile (\<lambda>c. c \<noteq> CHR '' '') token) = None
     \<and> post_logout (Some (''Bearer '' @ token)) w1 = (SuccessResponse NoData OK, w1)"
  unfolding post_logout_def
  by (simp add: bearer_token_Bearer startsWith_Bearer kv_delete_def kv_get_def del: append.simps)

lemma bearer_token_no_space:
  "CHR '' '' \<notin> set token \<Longrightarrow> bearer_token (''Bearer '' @ token) = Some token"
  unfolding bearer_token_Bearer by (auto simp: takeWhile_eq_all_conv)

lemma split_Bearer_no_space:
  "CHR '' '' \<notin> set token \<Longrightarrow> split_on CHR '' '' (''Bearer '' @ token) = [''Bearer'', token]"
  unfolding split_on_Bearer by (simp add: split_on_no_sep)

lemma select_user_by_id_SomeD:
  "select_user_by_id db uid = Some usr \<Longrightarrow> usr \<in> set (Users db) \<and> u_id usr = uid"
  unfolding select_user_by_id_def by (auto simp: find_Some_iff)

section \<open>Session introspection and lazy cleanup\<close>

lemma get_session_Bearer:
  "get_session (Some (''Bearer '' @ t)) w =
     (case kv_get (KV_SESSIONS w) (''session:'' @ takeWhile (\<lambda>c. c \<noteq> CHR '' '') t) of
        None \<Rightarrow> (SuccessResponse (SessionInfo False None) OK, w)
      | Some uid \<Rightarrow>
         if uid = [] then (SuccessResponse (SessionInfo False None) OK, w)
         else
           (case select_user_by_id (DB w) uid of
              None \<Rightarrow>
                (SuccessResponse (SessionInfo False None) OK,
                 w\<lparr>KV_SESSIONS := kv_delete (KV_SESSIONS w)
                      (''session:'' @ takeWhile (\<lambda>c. c \<noteq> CHR '' '') t)\<rparr>)
            | Some usr \<Rightarrow> (SuccessResponse (SessionInfo True (Some usr)) OK, w)))"
  unfolding get_session_def
  by (simp add: bearer_token_Bearer startsWith_Bearer Let_def del: append.simps)

lemma get_session_not_Bearer:
  "hdr = None \<or> (\<exists>h. hdr = Some h \<and> \<not> startsWith h ''Bearer '')
     \<Longrightarrow> get_session hdr w = (SuccessResponse (SessionInfo False None) OK, w)"
  unfolding get_session_def by auto

text \<open>
  C10. Session introspection always answers with a success response carrying a
  \<open>valid\<close> flag, never with an Unauthorized error. With no \<^verbatim>\<open>Authorization\<close> header, or
  one that does not start with \<^verbatim>\<open>Bearer \<close>, the flag is false and the stores are
  untouched. The flag is true only when the header starts with \<^verbatim>\<open>Bearer \<close>, the token
  taken from it maps to a stored session, and the user row that session is bound to
  exists; that row is the one reported.
\<close>

theorem session_introspection:
  "(\<exists>valid usr w'. get_session hdr w = (SuccessResponse (SessionInfo valid usr) OK, w'))
   \<and> ((hdr = None \<or> (\<exists>h. hdr = Some h \<and> \<not> startsWith h ''Bearer ''))
        \<longrightarrow> get_session hdr w = (SuccessResponse (SessionInfo False None) OK, w))
   \<and> (\<forall>usr w'. get_session hdr w = (SuccessResponse (SessionInfo True usr) OK, w')
        \<longrightarrow> (\<exists>h token uid u. hdr = Some h \<and> startsWith h ''Bearer ''
               \<and> bearer_token h = Some token
               \<and> kv_get (KV_SESSIONS w) (''session:'' @ token) = Some uid
               \<and> select_user_by_id (DB w) uid = Some u \<and> u_id u = uid
               \<and> usr = Some u \<and> w' = w))"
proof (intro conjI allI impI)
  show "\<exists>valid usr w'. get_session hdr w = (SuccessResponse (SessionInfo valid usr) OK, w')"
  proof (cases "hdr = None \<or> (\<exists>h. hdr = Some h \<and> \<not> startsWith h ''Bearer '')")
    case True
    then show ?thesis using get_session_not_Bearer by blast
  next
    case False
    then obtain t where hd: "hdr = Some (''Bearer '' @ t)"
      using startsWith_BearerD by (cases hdr) auto
    show ?thesis
      unfolding hd get_session_Bearer by (auto split: option.splits)
  qed
next
  assume "hdr = None \<or> (\<exists>h. hdr = Some h \<and> \<not> startsWith h ''Bearer '')"
  then show "get_session hdr w = (SuccessResponse (SessionInfo False None) OK, w)"
    by (rule get_session_not_Bearer)
next
  fix usr w'
  assume ok: "get_session hdr w = (SuccessResponse (SessionInfo True usr) OK, w')"
  have "\<not> (hdr = None \<or> (\<exists>h. hdr = Some h \<and> \<not> startsWith h ''Bearer ''))"
  proof
    assume "hdr = None \<or> (\<exists>h. hdr = Some h \<and> \<not> startsWith h ''Bearer '')"
    from get_session_not_Bearer [OF this, of w] ok show False by simp
  qed
  then obtain h where h: "hdr = Some h" "startsWith h ''Bearer ''"
    by (cases hdr) auto
  then obtain t where t: "h = ''Bearer '' @ t"
    using startsWith_BearerD by blast
  define token where "token = takeWhile (\<lambda>c. c \<noteq> CHR '' '') t"
  have bt: "bearer_token h = Some token"
    unfolding t token_def by (rule bearer_token_Bearer)
  from ok have ok': "get_session (Some (''Bearer '' @ t)) w
      = (SuccessResponse (SessionInfo True usr) OK, w')"
    unfolding h t .
  obtain uid where uid: "kv_get (KV_SESSIONS w) (''session:'' @ token) = Some uid"
    using ok' unfolding get_session_Bearer token_def
    by (cases "kv_get (KV_SESSIONS w) (''session:'' @ takeWhile (\<lambda>c. c \<noteq> CHR '' '') t)") auto
  obtain u where u: "select_user_by_id (DB w) uid = Some u"
    using ok' uid unfolding get_session_Bearer token_def
    by (cases "select_user_by_id (DB w) uid") (auto split: if_splits)
  have rest: "usr = Some u \<and> w' = w"
    using ok' uid u unfolding get_session_Bearer token_def
    by (auto split: if_splits)
  have "u_id u = uid" using u select_user_by_id_SomeD by blast
  with h bt uid u rest
  show "\<exists>h token uid u. hdr = Some h \<and> startsWith h ''Bearer ''
               \<and> bearer_token h = Some token
               \<and> kv_get (KV_SESSIONS w) (''session:'' @ token) = Some uid
               \<and> select_user_by_id (DB w) uid = Some u \<and> u_id u = uid
               \<and> usr = Some u \<and> w' = w"
    by blast
qed

theorem session_introspection_witness:
  "get_session (Some ''Bearer tok-2'') w_alice = (SuccessResponse (SessionInfo True (Some alice)) OK, w_alice)
   \<and> get_session None w_alice = (SuccessResponse (SessionInfo False None) OK, w_alice)
   \<and> (\<exists>h token uid u. Some ''Bearer tok-2'' = Some h \<and> startsWith h ''Bearer ''
         \<and> bearer_token h = Some token
         \<and> kv_get (KV_SESSIONS w_alice) (''session:'' @ token) = Some uid
         \<and> select_user_by_id (DB w_alice) uid = Some u \<and> u_id u = uid
         \<and> Some alice = Some u \<and> w_alice = w_alice)"
proof -
  have run: "get_session (Some ''Bearer tok-2'') w_alice
      = (SuccessResponse (SessionInfo True (Some alice)) OK, w_alice)"
    by (simp add: get_session_def startsWith_def bearer_token_def kv_get_def w_alice_def
        select_user_by_id_def empty_db_def alice_def)
  have none: "get_session None w_alice = (SuccessResponse (SessionInfo False None) OK, w_alice)"
    using session_introspection [of None w_alice] by simp
  from session_introspection [of "Some ''Bearer tok-2''" w_alice] run
  have "\<exists>h token uid u. Some ''Bearer tok-2'' = Some h \<and> startsWith h ''Bearer ''
         \<and> bearer_token h = Some token
         \<and> kv_get (KV_SESSIONS w_alice) (''session:'' @ token) = Some uid
         \<and> select_user_by_id (DB w_alice) uid = Some u \<and> u_id u = uid
         \<and> Some alice = Some u \<and> w_alice = w_alice"
    by blast
  with run none show ?thesis by blast
qed

text \<open>
  C6. A session token bound to a user id with no user row: introspection answers
  \<open>valid = false\<close> and the admin middleware answers Unauthorized, each deletes the
  dangling \<^verbatim>\<open>session:<token>\<close> entry, and a second resolution on the resulting stores
  gives the same answer and leaves them as they are.
\<close>

theorem dangling_session_cleanup:
  assumes tok: "token \<noteq> []" "CHR '' '' \<notin> set token"
    and sess: "kv_get (KV_SESSIONS w) (''session:'' @ token) = Some uid" "uid \<noteq> []"
    and gone: "select_user_by_id (DB w) uid = None"
  defines "hdr \<equiv> Some (''Bearer '' @ token)"
  defines "w1 \<equiv> w\<lparr>KV_SESSIONS := kv_delete (KV_SESSIONS w) (''session:'' @ token)\<rparr>"
  shows "get_session hdr w = (SuccessResponse (SessionInfo False None) OK, w1)
     \<and> get_session hdr w1 = (SuccessResponse (SessionInfo False None) OK, w1)
     \<and> adminAuthMiddleware hdr w = (Respond errors_unauthorized, w1)
     \<and> adminAuthMiddleware hdr w1 = (Respond errors_unauthorized, w1)
     \<and> kv_get (KV_SESSIONS w1) (''session:'' @ token) = None"
proof -
  have absent: "kv_get (KV_SESSIONS w1) (''session:'' @ token) = None"
    unfolding w1_def by (simp add: kv_get_def kv_delete_def)
  have g1: "get_session hdr w = (SuccessResponse (SessionInfo False None) OK, w1)"
    unfolding get_session_def hdr_def w1_def
    using tok sess gone
    by (simp add: bearer_token_no_space startsWith_Bearer del: append.simps)
  have g2: "get_session hdr w1 = (SuccessResponse (SessionInfo False None) OK, w1)"
    unfolding get_session_def hdr_def
    using tok absent
    by (simp add: bearer_token_no_space startsWith_Bearer del: append.simps)
  have a1: "adminAuthMiddleware hdr w = (Respond errors_unauthorized, w1)"
    unfolding adminAuthMiddleware_def hdr_def w1_def
    using tok sess gone
    by (simp add: split_Bearer_no_space del: append.simps split_on.simps)
  have a2: "adminAuthMiddleware hdr w1 = (Respond errors_unauthorized, w1)"
    unfolding adminAuthMiddleware_def hdr_def
    using tok absent
    by (simp add: split_Bearer_no_space del: append.simps split_on.simps)
  show ?thesis using g1 g2 a1 a2 absent by simp
qed

theorem dangling_session_cleanup_witness:
  "get_session (Some ''Bearer tok-1'') w_dangling
      = (SuccessResponse (SessionInfo False None) OK, w_dangling\<lparr>KV_SESSIONS := Map.empty\<rparr>)
   \<and> get_session (Some ''Bearer tok-1'') (w_dangling\<lparr>KV_SESSIONS := Map.empty\<rparr>)
      = (SuccessResponse (SessionInfo False None) OK, w_dangling\<lparr>KV_SESSIONS := Map.empty\<rparr>)
   \<and> adminAuthMiddleware (Some ''Bearer tok-1'') w_dangling
      = (Respond errors_unauthorized, w_dangling\<lparr>KV_SESSIONS := Map.empty\<rparr>)
   \<and> adminAuthMiddleware (Some ''Bearer tok-1'') (w_dangling\<lparr>KV_SESSIONS := Map.empty\<rparr>)
      = (Respond errors_unauthorized, w_dangling\<lparr>KV_SESSIONS := Map.empty\<rparr>)"
proof -
  have h1: "''tok-1'' \<noteq> []" and h2: "CHR '' '' \<notin> set ''tok-1''" by simp_all
  have h3: "kv_get (KV_SESSIONS w_dangling) (''session:'' @ ''tok-1'') = Some ''u-gone''"
    by (simp add: kv_get_def w_dangling_def)
  have h4: "''u-gone'' \<noteq> []" by simp
  have h5: "select_user_by_id (DB w_dangling) ''u-gone'' = None"
    by (simp add: select_user_by_id_def w_dangling_def empty_db_def)
  have del: "w_dangling\<lparr>KV_SESSIONS := kv_delete (KV_SESSIONS w_dangling) (''session:'' @ ''tok-1'')\<rparr>
      = w_dangling\<lparr>KV_SESSIONS := Map.empty\<rparr>"
    by (simp add: kv_delete_def w_dangling_def)
  show ?thesis
    using dangling_session_cleanup [OF h1 h2 h3 h4 h5] unfolding del by simp
qed

section \<open>Issuing a registration challenge\<close>

text \<open>
  C9. While \<^verbatim>\<open>REGISTER_ENABLED\<close> is unset or false, issuing a registration challenge
  answers Forbidden and leaves every store as it was, whatever the validated user name
  and e-mail are and whatever the user lookup and user creation of lib/passkeys would
  do: neither is consulted, no user row is created and no nonce is stored.
\<close>

theorem registration_disabled_forbidden:
  "REGISTER_ENABLED cfg = Unset \<or> REGISTER_ENABLED cfg = FlagBool False
     \<Longrightarrow> post_register_challenge getUser getOrCreateUser cfg challenge valid_json w
           = (errors_forbidden, w)"
  unfolding post_register_challenge_def by auto

theorem registration_disabled_forbidden_witness:
  "post_register_challenge (\<lambda>db un em. None) (\<lambda>db un em. (alice, db\<lparr>Users := Users db @ [alice]\<rparr>))
       cfg_disabled ''n1'' (''alice'', ''alice@example.com'') w_empty
     = (errors_forbidden, w_empty)"
proof -
  have "REGISTER_ENABLED cfg_disabled = Unset \<or> REGISTER_ENABLED cfg_disabled = FlagBool False"
    by (simp add: cfg_disabled_def)
  then show ?thesis by (rule registration_disabled_forbidden)
qed

section \<open>Single use of a challenge\<close>

text \<open>
  The two verify handlers of routes/auth.ts consume the nonce through
  \<^verbatim>\<open>getAndDeleteChallenge\<close> before anything else can fail: after any attempt that
  presents a nonce, no usable challenge is left under it, and an attempt that finds
  none is answered \<^verbatim>\<open>AUTH_SESSION_EXPIRED\<close> with the stores untouched.
\<close>

lemma session_key_not_challenge_key [simp]:
  "''session:'' @ a \<noteq> ''challenge:'' @ b" "''challenge:'' @ b \<noteq> ''session:'' @ a"
  by simp_all

lemma getAndDeleteChallenge_consumed:
  "getAndDeleteChallenge kv ch = (v, kv') \<Longrightarrow> \<not> truthy (kv_get kv' (''challenge:'' @ ch))"
  unfolding getAndDeleteChallenge_def
  by (auto simp: Let_def kv_get_def kv_delete_def split: if_splits)

lemma getAndDeleteChallenge_absent:
  "\<not> truthy (kv_get kv (''challenge:'' @ ch)) \<Longrightarrow>
     getAndDeleteChallenge kv ch = (kv_get kv (''challenge:'' @ ch), kv)"
  unfolding getAndDeleteChallenge_def by (simp add: Let_def)

lemma kv_get_put_other:
  "k \<noteq> k' \<Longrightarrow> kv_get (kv_put kv k v ttl) k' = kv_get kv k'"
  by (simp add: kv_get_def kv_put_def)

lemma kv_get_put_same: "kv_get (kv_put kv k v ttl) k = Some v"
  by (simp add: kv_get_def kv_put_def)

lemma kv_get_delete_same: "kv_get (kv_delete kv k) k = None"
  by (simp add: kv_get_def kv_delete_def)

lemma kv_get_delete_other: "k \<noteq> k' \<Longrightarrow> kv_get (kv_delete kv k) k' = kv_get kv k'"
  by (simp add: kv_get_def kv_delete_def)

lemma login_verify_challenge_spent:
  assumes "extractChallengeFromClientData r = Some ch" "ch \<noteq> []"
    and "post_login_verify V cfg req uuid (Json (Some r)) w = (res, w')"
  shows "\<not> truthy (kv_get (KV_SESSIONS w') (''challenge:'' @ ch))"
proof -
  obtain v kv1 where g: "getAndDeleteChallenge (KV_SESSIONS w) ch = (v, kv1)"
    by (cases "getAndDeleteChallenge (KV_SESSIONS w) ch")
  have spent: "\<not> truthy (kv_get kv1 (''challenge:'' @ ch))"
    using g by (rule getAndDeleteChallenge_consumed)
  have "KV_SESSIONS w' = kv1 \<or>
        (\<exists>uid. KV_SESSIONS w' = kv_put kv1 (''session:'' @ uuid) uid SESSION_TTL)"
    using assms g unfolding post_login_verify_def createSession_def
    by (auto simp: Let_def split: option.splits lib_result.splits if_splits)
  then show ?thesis using spent by (auto simp: kv_get_put_other)
qed

lemma login_verify_replay_rejected:
  assumes "extractChallengeFromClientData r = Some ch" "ch \<noteq> []"
    and "\<not> truthy (kv_get (KV_SESSIONS w) (''challenge:'' @ ch))"
  shows "post_login_verify V cfg req uuid (Json (Some r)) w
           = (ErrorResponse AUTH_SESSION_EXPIRED BAD_REQUEST, w)"
  using assms unfolding post_login_verify_def
  by (simp add: getAndDeleteChallenge_absent Let_def)

lemma register_verify_challenge_spent:
  assumes "extractChallengeFromClientData r = Some ch" "ch \<noteq> []"
    and "post_register_verify V cfg req now uuid (Json (Some r)) w = (res, w')"
  shows "\<not> truthy (kv_get (KV_SESSIONS w') (''challenge:'' @ ch))"
proof -
  obtain v kv1 where g: "getAndDeleteChallenge (KV_SESSIONS w) ch = (v, kv1)"
    by (cases "getAndDeleteChallenge (KV_SESSIONS w) ch")
  have spent: "\<not> truthy (kv_get kv1 (''challenge:'' @ ch))"
    using g by (rule getAndDeleteChallenge_consumed)
  have "KV_SESSIONS w' = kv1 \<or>
        (\<exists>uid. KV_SESSIONS w' = kv_put kv1 (''session:'' @ uuid) uid SESSION_TTL)"
    using assms g unfolding post_register_verify_def createSession_def
    by (auto simp: Let_def split: option.splits lib_result.splits if_splits)
  then show ?thesis using spent by (auto simp: kv_get_put_other)
qed

lemma register_verify_replay_rejected:
  assumes "extractChallengeFromClientData r = Some ch" "ch \<noteq> []"
    and "\<not> truthy (kv_get (KV_SESSIONS w) (''challenge:'' @ ch))"
  shows "post_register_verify V cfg req now uuid (Json (Some r)) w
           = (ErrorResponse AUTH_SESSION_EXPIRED BAD_REQUEST, w)"
proof (cases "kv_get (KV_SESSIONS w) (''challenge:'' @ ch)")
  case None
  then show ?thesis using assms unfolding post_register_verify_def
    by (simp add: getAndDeleteChallenge_absent Let_def)
next
  case (Some a)
  then show ?thesis using assms unfolding post_register_verify_def
    by (simp add: getAndDeleteChallenge_absent Let_def)
qed

text \<open>
  C1 (the code falls short of it on the admin path). The admin login handler reads the
  challenge with a plain \<^verbatim>\<open>get\<close> and deletes it only on the success path. Issue the
  challenge \<^verbatim>\<open>c1\<close> on empty stores and present it with a credential id that is not
  registered: the answer is Not Found, the stores are exactly as before, the challenge
  is still there, and so the same nonce presented again is processed again instead of
  being answered \<^verbatim>\<open>AUTH_SESSION_EXPIRED\<close>.
\<close>

theorem admin_login_replay_after_failure:
  fixes V cfg req uuid
  defines "r \<equiv> \<lparr>rsp_id = ''no-such-credential'', rsp_clientData = Some (Some ''c1''), rsp_signCount = 1\<rparr>"
  defines "w1 \<equiv> snd (admin_post_login_challenge ''c1'' w_empty)"
  shows "admin_post_login_verify V cfg req uuid (Json (Some r)) w1 = (errors_notFound, w1)
     \<and> kv_get (KV_SESSIONS w1) ''challenge:c1'' = Some ''true''
     \<and> fst (admin_post_login_verify V cfg req uuid (Json (Some r)) w1)
          \<noteq> ErrorResponse AUTH_SESSION_EXPIRED BAD_REQUEST"
  unfolding r_def w1_def admin_post_login_verify_def admin_post_login_challenge_def
  by (simp add: extractChallengeFromClientData_def kv_get_def kv_put_def w_empty_def
      getPasskeyById_def empty_db_def)

section \<open>The signature counter\<close>

lemma rejects_counter_regressionD:
  assumes "rejects_counter_regression V" "counter_regression (rsp_signCount r) (a_counter a)"
  shows "V r ch origin rpid a = Throws \<or> (\<exists>v. V r ch origin rpid a = Returns v \<and> \<not> auth_verified v)"
proof (cases "V r ch origin rpid a")
  case Throws
  then show ?thesis by simp
next
  case (Returns v)
  with assms show ?thesis
    unfolding rejects_counter_regression_def
    by (metis lib_result.simps(5))
qed

lemma counter_checking_verifier_rejects:
  "rejects_counter_regression counter_checking_verifier"
  unfolding rejects_counter_regression_def counter_checking_verifier_def by simp

text \<open>
  C3. Let the library reject counter regressions, and let the response name a stored
  credential whose counter the reported counter does not exceed (both being zero
  excepted). Then neither login handler writes to the database, the admin handler
  leaves every store untouched, and whenever the presented challenge is a stored one
  both answer \<^verbatim>\<open>AUTH_UNAUTHORIZED\<close> with status 400, the response of a failed
  cryptographic verification. The stored counter is therefore what it was.
\<close>

theorem counter_regression_rejected:
  assumes lib: "rejects_counter_regression V"
    and pk: "getPasskeyById (DB w) (rsp_id r) = Some pk"
    and reg: "counter_regression (rsp_signCount r) (pk_sign_counter pk)"
  shows "DB (snd (post_login_verify V cfg req uuid (Json (Some r)) w)) = DB w
     \<and> snd (admin_post_login_verify V cfg req uuid (Json (Some r)) w) = w
     \<and> (extractChallengeFromClientData r = Some ch \<and> ch \<noteq> []
          \<and> truthy (kv_get (KV_SESSIONS w) (''challenge:'' @ ch))
        \<longrightarrow> fst (post_login_verify V cfg req uuid (Json (Some r)) w)
              = ErrorResponse AUTH_UNAUTHORIZED BAD_REQUEST
          \<and> fst (admin_post_login_verify V cfg req uuid (Json (Some r)) w)
              = ErrorResponse AUTH_UNAUTHORIZED BAD_REQUEST)"
proof -
  let ?a = "\<lparr>a_credentialID = pk_id pk, a_credentialPublicKey = pk_pubkey_blob pk,
             a_counter = pk_sign_counter pk\<rparr>"
  have rej: "\<And>c. V r c (getOrigin cfg req) (getRpID cfg req) ?a = Throws
      \<or> (\<exists>v. V r c (getOrigin cfg req) (getRpID cfg req) ?a = Returns v \<and> \<not> auth_verified v)"
    using rejects_counter_regressionD [OF lib, of r ?a] reg by simp
  have db: "DB (snd (post_login_verify V cfg req uuid (Json (Some r)) w)) = DB w"
  proof (cases "extractChallengeFromClientData r")
    case None
    then show ?thesis unfolding post_login_verify_def by simp
  next
    case (Some c)
    obtain v kv1 where g: "getAndDeleteChallenge (KV_SESSIONS w) c = (v, kv1)"
      by (cases "getAndDeleteChallenge (KV_SESSIONS w) c")
    from rej [of c] show ?thesis
      unfolding post_login_verify_def using Some g pk
      by (auto simp: Let_def)
  qed
  have adm: "snd (admin_post_login_verify V cfg req uuid (Json (Some r)) w) = w"
  proof (cases "extractChallengeFromClientData r")
    case None
    then show ?thesis unfolding admin_post_login_verify_def by simp
  next
    case (Some c)
    from rej [of c] show ?thesis
      unfolding admin_post_login_verify_def using Some pk
      by (auto simp: Let_def)
  qed
  have res: "fst (post_login_verify V cfg req uuid (Json (Some r)) w)
              = ErrorResponse AUTH_UNAUTHORIZED BAD_REQUEST
          \<and> fst (admin_post_login_verify V cfg req uuid (Json (Some r)) w)
              = ErrorResponse AUTH_UNAUTHORIZED BAD_REQUEST"
    if ch: "extractChallengeFromClientData r = Some ch" "ch \<noteq> []"
      "truthy (kv_get (KV_SESSIONS w) (''challenge:'' @ ch))"
  proof -
    have g: "getAndDeleteChallenge (KV_SESSIONS w) ch
        = (kv_get (KV_SESSIONS w) (''challenge:'' @ ch),
           kv_delete (KV_SESSIONS w) (''challenge:'' @ ch))"
      unfolding getAndDeleteChallenge_def using ch by (simp add: Let_def)
    from rej [of ch] show ?thesis
      unfolding post_login_verify_def admin_post_login_verify_def using ch g pk
      by (auto simp: Let_def)
  qed
  from db adm res show ?thesis by blast
qed

theorem counter_regression_rejected_witness:
  "rejects_counter_regression counter_checking_verifier
   \<and> getPasskeyById (DB w_login) (rsp_id r_B) = Some key5
   \<and> counter_regression (rsp_signCount r_B) (pk_sign_counter key5)
   \<and> truthy (kv_get (KV_SESSIONS w_login) (''challenge:'' @ ''c1''))
   \<and> fst (post_login_verify counter_checking_verifier cfg_enabled req0 ''tok-3'' (Json (Some r_B)) w_login)
        = ErrorResponse AUTH_UNAUTHORIZED BAD_REQUEST
   \<and> DB (snd (post_login_verify counter_checking_verifier cfg_enabled req0 ''tok-3'' (Json (Some r_B)) w_login))
        = DB w_login
   \<and> admin_post_login_verify counter_checking_verifier cfg_enabled req0 ''tok-3'' (Json (Some r_B)) w_login
        = (ErrorResponse AUTH_UNAUTHORIZED BAD_REQUEST, w_login)"
proof -
  have h2: "getPasskeyById (DB w_login) (rsp_id r_B) = Some key5"
    by (simp add: getPasskeyById_def w_login_def empty_db_def r_B_def key5_def)
  have h3: "counter_regression (rsp_signCount r_B) (pk_sign_counter key5)"
    by (simp add: counter_regression_def r_B_def key5_def)
  have h4: "extractChallengeFromClientData r_B = Some ''c1'' \<and> ''c1'' \<noteq> []
      \<and> truthy (kv_get (KV_SESSIONS w_login) (''challenge:'' @ ''c1''))"
    by (simp add: extractChallengeFromClientData_def r_B_def kv_get_def w_login_def)
  from counter_regression_rejected [OF counter_checking_verifier_rejects h2 h3,
      of cfg_enabled req0 "''tok-3''" "''c1''"] h4
  show ?thesis
    using counter_checking_verifier_rejects h2 h3
    by (metis prod.collapse)
qed

section \<open>Administrative role\<close>

text \<open>
  C4, as the code has it. The admin check is
  \<^verbatim>\<open>user.role !== 'admin' && user.username !== 'admin'\<close>. A user whose role is not
  \<^verbatim>\<open>admin\<close> and whose user name is not \<^verbatim>\<open>admin\<close> either is answered Forbidden by an
  admin login that verifies cryptographically, with every store left as it was (no
  session, no counter update), and is answered Forbidden by the admin middleware when
  presenting a session bound to them.
\<close>

theorem non_admin_forbidden:
  assumes usr: "select_user_by_id (DB w) uid = Some usr"
    and role: "u_role usr \<noteq> ''admin''" and name: "u_username usr \<noteq> ''admin''"
  shows "(extractChallengeFromClientData r = Some ch \<and> ch \<noteq> []
            \<and> truthy (kv_get (KV_SESSIONS w) (''challenge:'' @ ch))
            \<and> getPasskeyById (DB w) (rsp_id r) = Some pk \<and> pk_user_id pk = uid
            \<and> V r ch (getOrigin cfg req) (getRpID cfg req)
                 \<lparr>a_credentialID = pk_id pk, a_credentialPublicKey = pk_pubkey_blob pk,
                  a_counter = pk_sign_counter pk\<rparr> = Returns v
            \<and> auth_verified v
          \<longrightarrow> admin_post_login_verify V cfg req uuid (Json (Some r)) w = (errors_forbidden, w))
     \<and> (token \<noteq> [] \<and> CHR '' '' \<notin> set token
            \<and> kv_get (KV_SESSIONS w) (''session:'' @ token) = Some uid \<and> uid \<noteq> []
          \<longrightarrow> adminAuthMiddleware (Some (''Bearer '' @ token)) w = (Respond errors_forbidden, w))"
proof (intro conjI impI)
  assume "extractChallengeFromClientData r = Some ch \<and> ch \<noteq> []
            \<and> truthy (kv_get (KV_SESSIONS w) (''challenge:'' @ ch))
            \<and> getPasskeyById (DB w) (rsp_id r) = Some pk \<and> pk_user_id pk = uid
            \<and> V r ch (getOrigin cfg req) (getRpID cfg req)
                 \<lparr>a_credentialID = pk_id pk, a_credentialPublicKey = pk_pubkey_blob pk,
                  a_counter = pk_sign_counter pk\<rparr> = Returns v
            \<and> auth_verified v"
  then show "admin_post_login_verify V cfg req uuid (Json (Some r)) w = (errors_forbidden, w)"
    unfolding admin_post_login_verify_def using usr role name by simp
next
  assume "token \<noteq> [] \<and> CHR '' '' \<notin> set token
            \<and> kv_get (KV_SESSIONS w) (''session:'' @ token) = Some uid \<and> uid \<noteq> []"
  then show "adminAuthMiddleware (Some (''Bearer '' @ token)) w = (Respond errors_forbidden, w)"
    unfolding adminAuthMiddleware_def using usr role name
    by (simp add: split_Bearer_no_space del: append.simps split_on.simps)
qed

theorem non_admin_forbidden_witness:
  "select_user_by_id (DB w_alice_login) ''u-alice'' = Some alice
   \<and> u_role alice \<noteq> ''admin'' \<and> u_username alice \<noteq> ''admin''
   \<and> admin_post_login_verify counter_checking_verifier cfg_enabled req0 ''tok-4'' (Json (Some r_A)) w_alice_login
        = (errors_forbidden, w_alice_login)
   \<and> adminAuthMiddleware (Some ''Bearer tok-2'') w_alice_login = (Respond errors_forbidden, w_alice_login)"
proof -
  have h1: "select_user_by_id (DB w_alice_login) ''u-alice'' = Some alice"
    by (simp add: select_user_by_id_def w_alice_login_def w_login_def empty_db_def alice_def)
  have h2: "u_role alice \<noteq> ''admin''" and h3: "u_username alice \<noteq> ''admin''"
    by (simp_all add: alice_def)
  have login: "extractChallengeFromClientData r_A = Some ''c1'' \<and> ''c1'' \<noteq> []
      \<and> truthy (kv_get (KV_SESSIONS w_alice_login) (''challenge:'' @ ''c1''))
      \<and> getPasskeyById (DB w_alice_login) (rsp_id r_A) = Some key5 \<and> pk_user_id key5 = ''u-alice''
      \<and> counter_checking_verifier r_A ''c1'' (getOrigin cfg_enabled req0) (getRpID cfg_enabled req0)
           \<lparr>a_credentialID = pk_id key5, a_credentialPublicKey = pk_pubkey_blob key5,
            a_counter = pk_sign_counter key5\<rparr> = Returns \<lparr>auth_verified = True, newCounter = 6\<rparr>
      \<and> auth_verified \<lparr>auth_verified = True, newCounter = 6\<rparr>"
    by (simp add: extractChallengeFromClientData_def r_A_def kv_get_def w_alice_login_def w_login_def
        getPasskeyById_def empty_db_def key5_def counter_checking_verifier_def counter_regression_def)
  have mw: "''tok-2'' \<noteq> [] \<and> CHR '' '' \<notin> set ''tok-2''
      \<and> kv_get (KV_SESSIONS w_alice_login) (''session:'' @ ''tok-2'') = Some ''u-alice'' \<and> ''u-alice'' \<noteq> []"
    by (simp add: kv_get_def w_alice_login_def w_login_def)
  from non_admin_forbidden [OF h1 h2 h3, where r = r_A and ch = "''c1''" and pk = key5
      and V = counter_checking_verifier and cfg = cfg_enabled and req = req0
      and v = "\<lparr>auth_verified = True, newCounter = 6\<rparr>" and token = "''tok-2''"
      and uuid = "''tok-4''"] login mw
  have "admin_post_login_verify counter_checking_verifier cfg_enabled req0 ''tok-4'' (Json (Some r_A)) w_alice_login
        = (errors_forbidden, w_alice_login)
     \<and> adminAuthMiddleware (Some (''Bearer '' @ ''tok-2'')) w_alice_login = (Respond errors_forbidden, w_alice_login)"
    by blast
  with h1 h2 h3 show ?thesis by simp
qed

text \<open>
  C4 as stated fails: mallory has role \<^verbatim>\<open>user\<close> and user name \<^verbatim>\<open>admin\<close>. Her admin
  login is answered with a session token, the session is stored, and the admin
  middleware lets that session through.
\<close>

theorem admin_named_user_admitted:
  "u_role mallory = ''user''
   \<and> select_user_by_id (DB w_login) (pk_user_id key_m) = Some mallory
   \<and> fst (admin_post_login_verify counter_checking_verifier cfg_enabled req0 ''tok-9'' (Json (Some r_m)) w_login)
        = SuccessResponse (VerifiedToken ''tok-9'') OK
   \<and> kv_get (KV_SESSIONS (snd (admin_post_login_verify counter_checking_verifier cfg_enabled req0 ''tok-9''
                                   (Json (Some r_m)) w_login))) ''session:tok-9'' = Some ''u-mallory''
   \<and> fst (adminAuthMiddleware (Some ''Bearer tok-9'')
             (snd (admin_post_login_verify counter_checking_verifier cfg_enabled req0 ''tok-9''
                     (Json (Some r_m)) w_login))) = Next mallory"
  by (simp add: admin_post_login_verify_def adminAuthMiddleware_def extractChallengeFromClientData_def
      r_m_def kv_get_def kv_put_def kv_delete_def w_login_def getPasskeyById_def select_user_by_id_def
      update_sign_counter_def empty_db_def key5_def key_m_def mallory_def alice_def
      counter_checking_verifier_def counter_regression_def)

section \<open>When a user row comes into being\<close>

lemma insert_passkey_ReturnsD:
  "insert_passkey db pk = Returns db' \<Longrightarrow>
     pk_user_id pk \<in> set (map u_id (Users db)) \<and> Users db' = Users db
     \<and> Passkeys db' = Passkeys db @ [pk]"
  unfolding insert_passkey_def by (auto split: if_splits)

lemma register_verify_users:
  "Users (DB (snd (post_register_verify V cfg req now uuid body w))) = Users (DB w)"
  unfolding post_register_verify_def getAndDeleteChallenge_def createSession_def
  by (auto simp: Let_def dest: insert_passkey_ReturnsD
      split: json_body.splits option.splits lib_result.splits)

lemma register_verify_success:
  assumes "post_register_verify V cfg req now uuid body w = (SuccessResponse p st, w')"
  shows "\<exists>r ch uid v info. body = Json (Some r) \<and> extractChallengeFromClientData r = Some ch
      \<and> V r ch (getOrigin cfg req) (getRpID cfg req) = Returns v \<and> registrationInfo v = Some info
      \<and> kv_get (KV_SESSIONS w) (''challenge:'' @ ch) = Some uid
      \<and> uid \<in> set (map u_id (Users (DB w)))
      \<and> Passkeys (DB w') = Passkeys (DB w) @
           [\<lparr>pk_id = credentialID info, pk_user_id = uid,
             pk_pubkey_blob = credentialPublicKey info,
             pk_sign_counter = counter info, pk_created_at = now\<rparr>]
      \<and> kv_get (KV_SESSIONS w') (''session:'' @ uuid) = Some uid
      \<and> p = VerifiedToken uuid"
  using assms
  unfolding post_register_verify_def getAndDeleteChallenge_def createSession_def
  by (auto simp: Let_def kv_get_put_same dest!: insert_passkey_ReturnsD
      split: json_body.splits option.splits lib_result.splits if_splits)

lemma register_challenge_success:
  assumes "post_register_challenge getUser getOrCreateUser cfg ch (un, em) w = (SuccessResponse p st, w')"
  shows "getUser (DB w) un em = None
      \<and> DB w' = snd (getOrCreateUser (DB w) un em)
      \<and> kv_get (KV_SESSIONS w') (''challenge:'' @ ch) = Some (u_id (fst (getOrCreateUser (DB w) un em)))"
  using assms
  unfolding post_register_challenge_def storeChallenge_def
  by (auto simp: Let_def kv_get_put_same split: if_splits option.splits prod.splits)

lemma register_challenge_conflict:
  assumes "flag_truthy (REGISTER_ENABLED cfg)" "getUser (DB w) un em = Some existing"
  shows "post_register_challenge getUser getOrCreateUser cfg nonce (un, em) w = (errors_conflict, w)"
  using assms unfolding post_register_challenge_def by simp

lemma register_challenge_issued:
  assumes "flag_truthy (REGISTER_ENABLED cfg)" "getUser (DB w) un em = None"
  shows "\<exists>q wq. post_register_challenge getUser getOrCreateUser cfg nonce (un, em) w
                   = (SuccessResponse q OK, wq)"
  using assms unfolding post_register_challenge_def
  by (simp add: Let_def split: prod.splits)

lemma register_challenge_user_in_place:
  assumes contract: "returns_stored_user getOrCreateUser"
    and ok: "post_register_challenge getUser getOrCreateUser cfg nonce (un, em) w
               = (SuccessResponse q sq, wq)"
  shows "\<exists>usr. usr \<in> set (Users (DB wq))
            \<and> kv_get (KV_SESSIONS wq) (''challenge:'' @ nonce) = Some (u_id usr)"
proof -
  let ?usr = "fst (getOrCreateUser (DB w) un em)"
  from register_challenge_success [OF ok]
  have db: "DB wq = snd (getOrCreateUser (DB w) un em)"
    and kv: "kv_get (KV_SESSIONS wq) (''challenge:'' @ nonce) = Some (u_id ?usr)"
    by simp_all
  from contract have "?usr \<in> set (Users (snd (getOrCreateUser (DB w) un em)))"
    unfolding returns_stored_user_def by blast
  with db kv show ?thesis by auto
qed


lemma getOrCreateUser_appending_contract: "returns_stored_user getOrCreateUser_appending"
  unfolding returns_stored_user_def getOrCreateUser_appending_def
  by (auto simp: Let_def find_Some_iff split: option.splits)


text \<open>
  C5, as the code has it. Verifying a registration never creates or changes a user
  row. A Verified outcome needs the user id bound to the nonce to be in \<^verbatim>\<open>Users\<close>
  already; it appends one credential row for that id, built from what the library
  extracted, and stores a session for it. With registration enabled, a challenge is
  issued when \<^verbatim>\<open>getUser\<close> finds no user for the name and e-mail; when it finds one
  the answer is Conflict and the stores are untouched. On issuance the database is the
  one \<^verbatim>\<open>getOrCreateUser\<close> leaves and the nonce is bound to the id of the user it
  returns. When \<^verbatim>\<open>getOrCreateUser\<close> returns a row of the database it leaves, the
  nonce is therefore bound to a user who is in \<^verbatim>\<open>Users\<close> once the challenge is
  issued, and verification leaves \<^verbatim>\<open>Users\<close> as it is.
\<close>

theorem user_rows_and_registration:
  "Users (DB (snd (post_register_verify V cfg req now uuid body w))) = Users (DB w)
   \<and> (post_register_verify V cfg req now uuid body w = (SuccessResponse p st, w')
        \<longrightarrow> (\<exists>r ch uid v info. body = Json (Some r) \<and> extractChallengeFromClientData r = Some ch
              \<and> V r ch (getOrigin cfg req) (getRpID cfg req) = Returns v
              \<and> registrationInfo v = Some info
              \<and> kv_get (KV_SESSIONS w) (''challenge:'' @ ch) = Some uid
              \<and> uid \<in> set (map u_id (Users (DB w)))
              \<and> Passkeys (DB w') = Passkeys (DB w) @
                   [\<lparr>pk_id = credentialID info, pk_user_id = uid,
                     pk_pubkey_blob = credentialPublicKey info,
                     pk_sign_counter = counter info, pk_created_at = now\<rparr>]
              \<and> kv_get (KV_SESSIONS w') (''session:'' @ uuid) = Some uid
              \<and> p = VerifiedToken uuid))
   \<and> (post_register_challenge getUser getOrCreateUser cfg nonce (un, em) w = (SuccessResponse q sq, wq)
        \<longrightarrow> getUser (DB w) un em = None
          \<and> DB wq = snd (getOrCreateUser (DB w) un em)
          \<and> kv_get (KV_SESSIONS wq) (''challenge:'' @ nonce)
               = Some (u_id (fst (getOrCreateUser (DB w) un em))))
   \<and> (flag_truthy (REGISTER_ENABLED cfg) \<and> getUser (DB w) un em = Some existing
        \<longrightarrow> post_register_challenge getUser getOrCreateUser cfg nonce (un, em) w
              = (errors_conflict, w))
   \<and> (flag_truthy (REGISTER_ENABLED cfg) \<and> getUser (DB w) un em = None
        \<longrightarrow> (\<exists>q wq. post_register_challenge getUser getOrCreateUser cfg nonce (un, em) w
                        = (SuccessResponse q OK, wq)))
   \<and> (returns_stored_user getOrCreateUser
         \<and> post_register_challenge getUser getOrCreateUser cfg nonce (un, em) w
             = (SuccessResponse q sq, wq)
        \<longrightarrow> (\<exists>usr. usr \<in> set (Users (DB wq))
                \<and> kv_get (KV_SESSIONS wq) (''challenge:'' @ nonce) = Some (u_id usr)))"
proof -
  have c4: "flag_truthy (REGISTER_ENABLED cfg) \<and> getUser (DB w) un em = Some existing
        \<longrightarrow> post_register_challenge getUser getOrCreateUser cfg nonce (un, em) w
              = (errors_conflict, w)"
    using register_challenge_conflict by blast
  have c5: "flag_truthy (REGISTER_ENABLED cfg) \<and> getUser (DB w) un em = None
        \<longrightarrow> (\<exists>q wq. post_register_challenge getUser getOrCreateUser cfg nonce (un, em) w
                        = (SuccessResponse q OK, wq))"
    using register_challenge_issued [of cfg getUser w un em getOrCreateUser nonce] by blast
  have c6: "returns_stored_user getOrCreateUser
         \<and> post_register_challenge getUser getOrCreateUser cfg nonce (un, em) w
             = (SuccessResponse q sq, wq)
        \<longrightarrow> (\<exists>usr. usr \<in> set (Users (DB wq))
                \<and> kv_get (KV_SESSIONS wq) (''challenge:'' @ nonce) = Some (u_id usr))"
    using register_challenge_user_in_place
      [of getOrCreateUser getUser cfg nonce un em w q sq wq] by blast
  show ?thesis
    by (rule conjI [OF register_verify_users
          conjI [OF impI [OF register_verify_success]
            conjI [OF impI [OF register_challenge_success] conjI [OF c4 conjI [OF c5 c6]]]]])
qed

theorem user_rows_and_registration_witness:
  "Users (DB (snd (post_register_verify accepting_registration_verifier cfg_enabled req0 2000 ''tok-5''
        (Json (Some r_reg)) w_register))) = Users (DB w_register)
   \<and> (\<exists>w'. post_register_verify accepting_registration_verifier cfg_enabled req0 2000 ''tok-5''
        (Json (Some r_reg)) w_register = (SuccessResponse (VerifiedToken ''tok-5'') OK, w')
        \<and> kv_get (KV_SESSIONS w') (''session:'' @ ''tok-5'') = Some ''u-alice'')
   \<and> returns_stored_user getOrCreateUser_appending
   \<and> (\<exists>wq. post_register_challenge getUser_by_name_or_email getOrCreateUser_appending
               cfg_enabled ''c2'' (''alice'', ''alice@example.com'') w_empty
             = (SuccessResponse (RegistrationOptions ''c2'' []) OK, wq)
        \<and> Users (DB wq) = [alice]
        \<and> kv_get (KV_SESSIONS wq) (''challenge:'' @ ''c2'') = Some ''u-alice''
        \<and> (\<exists>usr. usr \<in> set (Users (DB wq))
               \<and> kv_get (KV_SESSIONS wq) (''challenge:'' @ ''c2'') = Some (u_id usr)))
   \<and> getUser_by_name_or_email (DB w_register) ''alice'' ''alice@example.com'' = Some alice
   \<and> post_register_challenge getUser_by_name_or_email getOrCreateUser_appending
        cfg_enabled ''c3'' (''alice'', ''alice@example.com'') w_register
      = (errors_conflict, w_register)"
proof -
  obtain w' where v: "post_register_verify accepting_registration_verifier cfg_enabled req0 2000 ''tok-5''
        (Json (Some r_reg)) w_register = (SuccessResponse (VerifiedToken ''tok-5'') OK, w')"
    by (simp add: post_register_verify_def getAndDeleteChallenge_def createSession_def
      extractChallengeFromClientData_def r_reg_def kv_get_def kv_put_def kv_delete_def
      w_register_def insert_passkey_def empty_db_def alice_def SESSION_TTL_def
      accepting_registration_verifier_def)
  have en: "flag_truthy (REGISTER_ENABLED cfg_enabled)" by (simp add: cfg_enabled_def)
  have none: "getUser_by_name_or_email (DB w_empty) ''alice'' ''alice@example.com'' = None"
    by (simp add: getUser_by_name_or_email_def w_empty_def empty_db_def)
  have some: "getUser_by_name_or_email (DB w_register) ''alice'' ''alice@example.com'' = Some alice"
    by (simp add: getUser_by_name_or_email_def w_register_def empty_db_def alice_def)
  note t1 = user_rows_and_registration [where V = accepting_registration_verifier
      and cfg = cfg_enabled and req = req0 and now = 2000 and uuid = "''tok-5''"
      and body = "Json (Some r_reg)" and w = w_register and p = "VerifiedToken ''tok-5''"
      and st = OK and w' = w' and getUser = getUser_by_name_or_email
      and getOrCreateUser = getOrCreateUser_appending and nonce = "''c3''"
      and un = "''alice''" and em = "''alice@example.com''" and existing = alice]
  have a: "Users (DB (snd (post_register_verify accepting_registration_verifier cfg_enabled req0 2000 ''tok-5''
        (Json (Some r_reg)) w_register))) = Users (DB w_register)"
    using t1 by blast
  have "\<exists>r ch uid. Json (Some r_reg) = Json (Some r) \<and> extractChallengeFromClientData r = Some ch
      \<and> kv_get (KV_SESSIONS w_register) (''challenge:'' @ ch) = Some uid
      \<and> kv_get (KV_SESSIONS w') (''session:'' @ ''tok-5'') = Some uid"
    using t1 v by blast
  then obtain ch uid where ch: "extractChallengeFromClientData r_reg = Some ch"
    and uid: "kv_get (KV_SESSIONS w_register) (''challenge:'' @ ch) = Some uid"
    and sess: "kv_get (KV_SESSIONS w') (''session:'' @ ''tok-5'') = Some uid"
    by auto
  from ch have "ch = ''c2''"
    by (simp add: extractChallengeFromClientData_def r_reg_def)
  with uid have "uid = ''u-alice''"
    by (simp add: kv_get_def w_register_def)
  with sess have b: "kv_get (KV_SESSIONS w') (''session:'' @ ''tok-5'') = Some ''u-alice''"
    by simp
  have conflict: "post_register_challenge getUser_by_name_or_email getOrCreateUser_appending
        cfg_enabled ''c3'' (''alice'', ''alice@example.com'') w_register
      = (errors_conflict, w_register)"
    using t1 en some by blast
  obtain wq where c: "post_register_challenge getUser_by_name_or_email getOrCreateUser_appending
               cfg_enabled ''c2'' (''alice'', ''alice@example.com'') w_empty
             = (SuccessResponse (RegistrationOptions ''c2'' []) OK, wq)"
    by (simp add: post_register_challenge_def cfg_enabled_def w_empty_def empty_db_def
        getUserPasskeys_def getUser_by_name_or_email_def getOrCreateUser_appending_def Let_def)
  note t2 = user_rows_and_registration [where
      getUser = getUser_by_name_or_email and getOrCreateUser = getOrCreateUser_appending
      and cfg = cfg_enabled and nonce = "''c2''" and un = "''alice''" and em = "''alice@example.com''"
      and w = w_empty and q = "RegistrationOptions ''c2'' []" and sq = OK and wq = wq]
  have d: "Users (DB wq) = [alice] \<and> kv_get (KV_SESSIONS wq) (''challenge:'' @ ''c2'') = Some ''u-alice''"
    using t2 c
    by (simp add: w_empty_def empty_db_def alice_def getOrCreateUser_appending_def Let_def)
  have e: "\<exists>usr. usr \<in> set (Users (DB wq))
               \<and> kv_get (KV_SESSIONS wq) (''challenge:'' @ ''c2'') = Some (u_id usr)"
    using t2 c getOrCreateUser_appending_contract by blast
  from a b d e v c some conflict getOrCreateUser_appending_contract show ?thesis by blast
qed

text \<open>
  C5 as stated fails: alice's row is there before her first registration is verified,
  the verification succeeds, and afterwards \<^verbatim>\<open>Users\<close> still holds that one row; what
  is new is the credential and the session.
\<close>

theorem verified_registration_adds_no_user:
  "Users (DB w_register) = [alice]
   \<and> post_register_verify accepting_registration_verifier cfg_enabled req0 2000 ''tok-5''
        (Json (Some r_reg)) w_register
      = (SuccessResponse (VerifiedToken ''tok-5'') OK,
         \<lparr>KV_SESSIONS = Map.empty(''session:tok-5'' \<mapsto> \<lparr>kv_value = ''u-alice'', expirationTtl = 86400\<rparr>),
          DB = empty_db\<lparr>Users := [alice],
                 Passkeys := [\<lparr>pk_id = ''cred-new'', pk_user_id = ''u-alice'', pk_pubkey_blob = [7, 8, 9],
                               pk_sign_counter = 0, pk_created_at = 2000\<rparr>]\<rparr>,
          S3 = Map.empty\<rparr>)"
  by (simp add: post_register_verify_def getAndDeleteChallenge_def createSession_def
      extractChallengeFromClientData_def r_reg_def kv_get_def kv_put_def kv_delete_def
      w_register_def insert_passkey_def empty_db_def alice_def SESSION_TTL_def
      accepting_registration_verifier_def fun_upd_twist)

section \<open>Two verifications at once\<close>

text \<open>
  The steps put together again are the handler: the lookup is read followed by drop,
  and one call that takes its three steps undisturbed answers what
  \<open>post_register_verify\<close> answers and leaves the stores it leaves.
\<close>

lemma getAndDeleteChallenge_steps:
  "getAndDeleteChallenge kv challenge =
     (challenge_read kv challenge, challenge_drop kv challenge (challenge_read kv challenge))"
  by (simp add: getAndDeleteChallenge_def challenge_read_def challenge_drop_def Let_def)

lemma post_register_verify_steps:
  "post_register_verify V cfg req now uuid body w =
     (case request_challenge body of
        None \<Rightarrow> (errors_validation, w)
      | Some (response, challenge) \<Rightarrow>
         register_verify_rest V cfg req now uuid response challenge
           (challenge_read (KV_SESSIONS w) challenge)
           (w\<lparr>KV_SESSIONS := challenge_drop (KV_SESSIONS w) challenge
                                (challenge_read (KV_SESSIONS w) challenge)\<rparr>))"
  unfolding post_register_verify_def request_challenge_def register_verify_rest_def
    getAndDeleteChallenge_steps
  by (simp add: Let_def split: json_body.splits option.splits)

lemma run_alone_is_handler:
  "run_schedule V cfg req c1 c2 [False, False, False] (AtRead, pc2, w) =
     (Answered (fst (post_register_verify V cfg req (vc_now c1) (vc_uuid c1) (vc_body c1) w)),
      pc2,
      snd (post_register_verify V cfg req (vc_now c1) (vc_uuid c1) (vc_body c1) w))"
  unfolding post_register_verify_steps
  by (simp add: verify_step_def split: option.splits prod.splits)

text \<open>
  C2 (the code falls short of it). Two registrations answer the same nonce \<^verbatim>\<open>c2\<close>,
  which is stored and bound to alice, each with a new credential of its own. When both
  calls read the nonce before either deletes it, each finds it, each is verified, each
  stores its credential and each is answered with a session token. Run one after the
  other, the first is verified and the second is answered \<^verbatim>\<open>AUTH_SESSION_EXPIRED\<close>.
\<close>

theorem concurrent_verifications_both_verified:
  "kv_get (KV_SESSIONS w_register) ''challenge:c2'' = Some ''u-alice''
   \<and> (case run_schedule accepting_registration_verifier cfg_enabled req0 call_a call_b
              [False, True, False, True, False, True] (AtRead, AtRead, w_register) of
         (pc1, pc2, w') \<Rightarrow>
           pc1 = Answered (SuccessResponse (VerifiedToken ''tok-5'') OK)
           \<and> pc2 = Answered (SuccessResponse (VerifiedToken ''tok-6'') OK)
           \<and> map pk_id (Passkeys (DB w')) = [''cred-new'', ''cred-other'']
           \<and> kv_get (KV_SESSIONS w') ''session:tok-5'' = Some ''u-alice''
           \<and> kv_get (KV_SESSIONS w') ''session:tok-6'' = Some ''u-alice'')
   \<and> (case run_schedule accepting_registration_verifier cfg_enabled req0 call_a call_b
              [False, False, False, True, True, True] (AtRead, AtRead, w_register) of
         (pc1, pc2, w') \<Rightarrow>
           pc1 = Answered (SuccessResponse (VerifiedToken ''tok-5'') OK)
           \<and> pc2 = Answered (ErrorResponse AUTH_SESSION_EXPIRED BAD_REQUEST))"
  by (simp add: verify_step_def request_challenge_def register_verify_rest_def
      challenge_read_def challenge_drop_def call_a_def call_b_def r_reg_def r_reg_b_def
      extractChallengeFromClientData_def kv_get_def kv_put_def kv_delete_def createSession_def
      w_register_def insert_passkey_def empty_db_def alice_def SESSION_TTL_def
      accepting_registration_verifier_def)

section \<open>Private messages: sending, then reading\<close>

lemma fold_max_ge: "a \<le> fold max xs (a::nat)"
proof (induction xs arbitrary: a)
  case Nil
  show ?case by simp
next
  case (Cons x xs)
  have "max x a \<le> fold max xs (max x a)" by (rule Cons.IH)
  then show ?case by simp
qed

lemma fold_max_mem: "x \<in> set xs \<Longrightarrow> x \<le> fold max xs (a::nat)"
proof (induction xs arbitrary: a)
  case Nil
  then show ?case by simp
next
  case (Cons y ys)
  show ?case
  proof (cases "x = y")
    case True
    have "max y a \<le> fold max ys (max y a)" by (rule fold_max_ge)
    with True show ?thesis by simp
  next
    case False
    with Cons.prems have "x \<in> set ys" by simp
    then show ?thesis using Cons.IH by simp
  qed
qed

lemma next_id_fresh: "next_id ids seq \<notin> set ids"
proof
  assume "next_id ids seq \<in> set ids"
  then have "next_id ids seq \<le> fold max ids 0" by (rule fold_max_mem)
  then show False by (simp add: next_id_def)
qed

lemma next_id_above_seq: "seq < next_id ids seq"
  by (simp add: next_id_def)

lemma find_by_id_distinct:
  assumes "distinct (map c_id cs)" "c \<in> set cs"
  shows "find (\<lambda>x. c_id x = c_id c) cs = Some c"
  using assms
proof (induction cs)
  case Nil
  then show ?case by simp
next
  case (Cons a cs)
  then show ?case by (cases "a = c") (auto simp: image_iff)
qed

lemma find_map_preserving:
  assumes "\<And>c. c_id (f c) = c_id c"
  shows "find (\<lambda>c. c_id c = i) (map f cs) = map_option f (find (\<lambda>c. c_id c = i) cs)"
  by (induction cs) (simp_all add: assms)

lemma page_exists:
  assumes "x \<in> set xs" "0 < (pageSize::nat)"
  shows "\<exists>page. 0 < page \<and> (page - 1) * pageSize < length xs
            \<and> x \<in> set (take pageSize (drop ((page - 1) * pageSize) xs))"
proof -
  from assms obtain i where i: "i < length xs" "xs ! i = x"
    by (auto simp: in_set_conv_nth)
  define page where "page = i div pageSize + 1"
  have off: "(page - 1) * pageSize + i mod pageSize = i"
    unfolding page_def by simp
  have le: "(page - 1) * pageSize \<le> i"
    using off by linarith
  have m: "i mod pageSize < pageSize" using assms by simp
  have len: "i mod pageSize < length (drop ((page - 1) * pageSize) xs)"
    using i off by simp
  have "take pageSize (drop ((page - 1) * pageSize) xs) ! (i mod pageSize) = x"
    using m len i off by simp
  moreover have "i mod pageSize < length (take pageSize (drop ((page - 1) * pageSize) xs))"
    using m len by simp
  ultimately have "x \<in> set (take pageSize (drop ((page - 1) * pageSize) xs))"
    by (metis nth_mem)
  moreover have "0 < page" by (simp add: page_def)
  moreover have "(page - 1) * pageSize < length xs" using le i by linarith
  ultimately show ?thesis by blast
qed

lemma pm_key_is_key:
  "length uuid = 36 \<Longrightarrow>
     length (utf16_of (''pm-body/'' @ uuid)) < 100
     \<and> of_char CHR ''/'' \<in> set (utf16_of (''pm-body/'' @ uuid))"
  by (simp add: utf16_of_def)

lemma resolve_body_stored:
  assumes "length (mv_body msg) < 100" "of_char CHR ''/'' \<in> set (mv_body msg)"
    and "s3 (mv_body msg) = Some content"
  shows "resolve_body decode s3 msg = msg\<lparr>mv_body := decode content\<rparr>"
  using assms unfolding resolve_body_def s3_get_def by simp

lemma sort_pair_cases:
  "sort_pair a b = (u1, u2) \<Longrightarrow> (u1 = a \<and> u2 = b) \<or> (u1 = b \<and> u2 = a)"
  unfolding sort_pair_def by (auto split: if_splits)

lemma insert_conversation_ReturnsD:
  assumes "insert_conversation db u1 u2 now = Returns (cid, db1)"
  shows "Users db1 = Users db \<and> PrivateMessages db1 = PrivateMessages db
     \<and> seq_PrivateMessages db1 = seq_PrivateMessages db
     \<and> cid = next_id (map c_id (Conversations db)) (seq_Conversations db)
     \<and> (\<exists>c. Conversations db1 = Conversations db @ [c] \<and> c_id c = cid
              \<and> c_user1_id c = u1 \<and> c_user2_id c = u2)"
  using assms unfolding insert_conversation_def
  by (auto simp: Let_def split: if_splits)

lemma insert_private_message_ReturnsD:
  assumes "insert_private_message db cid author body now = Returns db2"
  shows "Users db2 = Users db \<and> Conversations db2 = Conversations db
     \<and> author \<in> set (map u_id (Users db))
     \<and> PrivateMessages db2 = PrivateMessages db @
          [\<lparr>pm_id = next_id (map pm_id (PrivateMessages db)) (seq_PrivateMessages db),
            pm_conversation_id = cid,
            pm_author_id = author, pm_body = body, pm_created_at = now\<rparr>]"
  using assms unfolding insert_private_message_def
  by (auto simp: Let_def split: if_splits)

lemma touch_conversation_find:
  assumes "find (\<lambda>c. c_id c = i) (Conversations (touch_conversation db now ex b cid)) = Some c'"
  shows "\<exists>c. find (\<lambda>c. c_id c = i) (Conversations db) = Some c
            \<and> c_user1_id c' = c_user1_id c \<and> c_user2_id c' = c_user2_id c"
proof -
  define f :: "conversation \<Rightarrow> conversation" where "f = (\<lambda>c.
         if c_id c = cid
         then (if b
               then c\<lparr>c_last_message_at := now, c_last_message_excerpt := Some ex,
                      c_user2_unread_count := c_user2_unread_count c + 1\<rparr>
               else c\<lparr>c_last_message_at := now, c_last_message_excerpt := Some ex,
                      c_user1_unread_count := c_user1_unread_count c + 1\<rparr>)
         else c)"
  have keep: "\<And>c. c_id (f c) = c_id c \<and> c_user1_id (f c) = c_user1_id c
      \<and> c_user2_id (f c) = c_user2_id c"
    by (simp add: f_def)
  have "Conversations (touch_conversation db now ex b cid) = map f (Conversations db)"
    by (simp add: touch_conversation_def f_def)
  with assms have "map_option f (find (\<lambda>c. c_id c = i) (Conversations db)) = Some c'"
    using find_map_preserving [of f i "Conversations db"] keep by simp
  then obtain c where "find (\<lambda>c. c_id c = i) (Conversations db) = Some c" "c' = f c"
    by auto
  then show ?thesis using keep by auto
qed

lemma touch_conversation_find_Some:
  assumes "find (\<lambda>c. c_id c = i) (Conversations db) = Some c"
  shows "\<exists>c'. find (\<lambda>c. c_id c = i) (Conversations (touch_conversation db now ex b cid)) = Some c'
            \<and> c_user1_id c' = c_user1_id c \<and> c_user2_id c' = c_user2_id c"
proof (cases "find (\<lambda>c. c_id c = i) (Conversations (touch_conversation db now ex b cid))")
  case None
  define f :: "conversation \<Rightarrow> conversation" where "f = (\<lambda>c.
         if c_id c = cid
         then (if b
               then c\<lparr>c_last_message_at := now, c_last_message_excerpt := Some ex,
                      c_user2_unread_count := c_user2_unread_count c + 1\<rparr>
               else c\<lparr>c_last_message_at := now, c_last_message_excerpt := Some ex,
                      c_user1_unread_count := c_user1_unread_count c + 1\<rparr>)
         else c)"
  have keep: "\<And>c. c_id (f c) = c_id c" by (simp add: f_def)
  have "Conversations (touch_conversation db now ex b cid) = map f (Conversations db)"
    by (simp add: touch_conversation_def f_def)
  with None assms show ?thesis
    using find_map_preserving [of f i "Conversations db"] keep by simp
next
  case (Some c')
  with touch_conversation_find [OF Some] assms show ?thesis by auto
qed

lemma touch_conversation_other:
  "Users (touch_conversation db now ex b cid) = Users db
   \<and> PrivateMessages (touch_conversation db now ex b cid) = PrivateMessages db"
  by (simp add: touch_conversation_def)

lemma post_message_success:
  assumes sent: "post_message encode usr now uuid (rn, body) w
                   = (SuccessResponse (MessageSent cid) CREATED, w')"
    and dist: "distinct (map c_id (Conversations (DB w)))"
  shows "Users (DB w') = Users (DB w)
     \<and> u_id usr \<in> set (map u_id (Users (DB w)))
     \<and> PrivateMessages (DB w') = PrivateMessages (DB w) @
          [\<lparr>pm_id = next_id (map pm_id (PrivateMessages (DB w))) (seq_PrivateMessages (DB w)), pm_conversation_id = cid,
            pm_author_id = u_id usr, pm_body = utf16_of (''pm-body/'' @ uuid), pm_created_at = now\<rparr>]
     \<and> S3 w' (utf16_of (''pm-body/'' @ uuid)) = Some (encode body)
     \<and> (\<exists>c. find (\<lambda>c. c_id c = cid) (Conversations (DB w')) = Some c
            \<and> (c_user1_id c = u_id usr \<or> c_user2_id c = u_id usr))"
proof -
  from sent obtain recipient where
    rec: "find (\<lambda>u. u_username u = rn) (Users (DB w)) = Some recipient"
    and ne: "u_id recipient \<noteq> u_id usr"
    unfolding post_message_def by (auto split: option.splits if_splits)
  obtain u1 u2 where sp: "sort_pair (u_id usr) (u_id recipient) = (u1, u2)"
    by (cases "sort_pair (u_id usr) (u_id recipient)")
  have part: "u1 = u_id usr \<or> u2 = u_id usr"
    using sort_pair_cases [OF sp] by auto
  define step where "step =
     (case find (\<lambda>c. c_user1_id c = u1 \<and> c_user2_id c = u2) (Conversations (DB w)) of
        Some conversation \<Rightarrow> Returns (c_id conversation, DB w)
      | None \<Rightarrow> insert_conversation (DB w) u1 u2 now)"
  have eqn: "post_message encode usr now uuid (rn, body) w =
     (case step of
        Throws \<Rightarrow> (errors_internal, w)
      | Returns (conversationId, db1) \<Rightarrow>
         (case insert_private_message db1 conversationId (u_id usr) (utf16_of (''pm-body/'' @ uuid)) now of
            Throws \<Rightarrow> (errors_internal,
                       w\<lparr>DB := db1, S3 := s3_put (S3 w) (utf16_of (''pm-body/'' @ uuid)) (encode body)\<rparr>)
          | Returns db2 \<Rightarrow>
             (SuccessResponse (MessageSent conversationId) CREATED,
              w\<lparr>DB := db1, S3 := s3_put (S3 w) (utf16_of (''pm-body/'' @ uuid)) (encode body),
                 DB := touch_conversation db2 now (take 50 (strip_tags_from False body))
                         (u1 = u_id usr) conversationId\<rparr>)))"
    unfolding post_message_def step_def using rec ne sp
    by (simp add: Let_def del: append.simps split: lib_result.splits prod.splits)
  from sent obtain cid0 db1 where st: "step = Returns (cid0, db1)"
    unfolding eqn by (cases step) auto
  define w1 where "w1 = w\<lparr>DB := db1, S3 := s3_put (S3 w) (utf16_of (''pm-body/'' @ uuid)) (encode body)\<rparr>"
  from sent obtain db2 where
    ins: "insert_private_message db1 cid0 (u_id usr) (utf16_of (''pm-body/'' @ uuid)) now = Returns db2"
    unfolding eqn st
    by (cases "insert_private_message db1 cid0 (u_id usr) (utf16_of (''pm-body/'' @ uuid)) now") auto
  from sent have res: "cid = cid0"
      "w' = w1\<lparr>DB := touch_conversation db2 now (take 50 (strip_tags_from False body))
                        (u1 = u_id usr) cid0\<rparr>"
    unfolding eqn st w1_def using ins by (auto simp del: append.simps)
  have conv1: "Users db1 = Users (DB w) \<and> PrivateMessages db1 = PrivateMessages (DB w)
      \<and> seq_PrivateMessages db1 = seq_PrivateMessages (DB w)
      \<and> (\<exists>c. find (\<lambda>c. c_id c = cid0) (Conversations db1) = Some c
             \<and> c_user1_id c = u1 \<and> c_user2_id c = u2)"
  proof (cases "find (\<lambda>c. c_user1_id c = u1 \<and> c_user2_id c = u2) (Conversations (DB w))")
    case (Some c0)
    with st have eq: "cid0 = c_id c0" "db1 = DB w" by (simp_all add: step_def)
    from Some have c0: "c0 \<in> set (Conversations (DB w))" "c_user1_id c0 = u1" "c_user2_id c0 = u2"
      by (auto simp: find_Some_iff)
    from find_by_id_distinct [OF dist c0(1)] eq c0 show ?thesis by simp
  next
    case None
    with st have "insert_conversation (DB w) u1 u2 now = Returns (cid0, db1)"
      by (simp add: step_def)
    from insert_conversation_ReturnsD [OF this] obtain c where
      c: "Users db1 = Users (DB w)" "PrivateMessages db1 = PrivateMessages (DB w)"
        "seq_PrivateMessages db1 = seq_PrivateMessages (DB w)"
        "cid0 = next_id (map c_id (Conversations (DB w))) (seq_Conversations (DB w))"
        "Conversations db1 = Conversations (DB w) @ [c]" "c_id c = cid0"
        "c_user1_id c = u1" "c_user2_id c = u2"
      by auto
    have "cid0 \<notin> set (map c_id (Conversations (DB w)))"
      unfolding c(4) by (rule next_id_fresh)
    with dist c(5,6) have "distinct (map c_id (Conversations db1))" by simp
    moreover have "c \<in> set (Conversations db1)" using c(5) by simp
    ultimately have "find (\<lambda>x. c_id x = c_id c) (Conversations db1) = Some c"
      by (rule find_by_id_distinct)
    with c show ?thesis by simp
  qed
  from insert_private_message_ReturnsD [OF ins] have pm:
    "Users db2 = Users db1" "Conversations db2 = Conversations db1"
    "u_id usr \<in> set (map u_id (Users db1))"
    "PrivateMessages db2 = PrivateMessages db1 @
          [\<lparr>pm_id = next_id (map pm_id (PrivateMessages db1)) (seq_PrivateMessages db1), pm_conversation_id = cid0,
            pm_author_id = u_id usr, pm_body = utf16_of (''pm-body/'' @ uuid), pm_created_at = now\<rparr>]"
    by simp_all
  from conv1 pm(2) obtain c where
    c: "find (\<lambda>c. c_id c = cid0) (Conversations db2) = Some c" "c_user1_id c = u1" "c_user2_id c = u2"
    by auto
  from touch_conversation_find_Some [OF c(1)] c(2,3) part
  have found: "\<exists>c. find (\<lambda>c. c_id c = cid) (Conversations (DB w')) = Some c
            \<and> (c_user1_id c = u_id usr \<or> c_user2_id c = u_id usr)"
    unfolding res w1_def by (simp del: append.simps) metis
  have s3: "S3 w' (utf16_of (''pm-body/'' @ uuid)) = Some (encode body)"
    unfolding res w1_def by (simp add: s3_put_def del: append.simps)
  have users: "Users (DB w') = Users (DB w)"
    unfolding res w1_def using touch_conversation_other pm(1) conv1 by (simp del: append.simps)
  have pms: "PrivateMessages (DB w') = PrivateMessages (DB w) @
          [\<lparr>pm_id = next_id (map pm_id (PrivateMessages (DB w))) (seq_PrivateMessages (DB w)), pm_conversation_id = cid,
            pm_author_id = u_id usr, pm_body = utf16_of (''pm-body/'' @ uuid), pm_created_at = now\<rparr>]"
    unfolding res w1_def using touch_conversation_other pm(4) conv1 by (simp del: append.simps)
  from users pm(3) conv1 pms s3 found show ?thesis by simp
qed

lemma select_messages_mem:
  assumes "pm \<in> set (PrivateMessages db)" "pm_conversation_id pm = cid"
    and "u \<in> set (Users db)" "u_id u = pm_author_id pm"
  shows "\<lparr>mv_id = pm_id pm, mv_body = pm_body pm, mv_created_at = pm_created_at pm,
          mv_author_username = u_username u\<rparr> \<in> set (select_messages db cid)"
  using assms unfolding select_messages_def by auto

lemma get_messages_participant:
  assumes "find (\<lambda>c. c_id c = cid) (Conversations (DB w)) = Some c"
    and "c_user1_id c = u_id usr \<or> c_user2_id c = u_id usr"
    and "(page - 1) * pageSize \<le> MAX_SQL_INTEGER"
  shows "\<exists>pg w''. get_messages decode usr cid page pageSize w =
     (SuccessResponse
        (MessagePage (map (resolve_body decode (S3 w))
                        (take pageSize (drop ((page - 1) * pageSize) (select_messages (DB w) cid)))) pg)
        OK, w'')"
  using assms unfolding get_messages_def by (auto simp: Let_def)

text \<open>
  C7, as the code has it. Let the drawn UUID have its 36 characters, let the
  authenticated sender be a row of \<^verbatim>\<open>Users\<close>, let conversation ids be distinct, as the
  primary key has them, and let the listing of the conversation be no longer than the
  largest offset the database takes. When sending answers Created with conversation id
  \<open>cid\<close>, then for every page size there is a page of that conversation on which the
  sender's retrieval lists the new message, and the text listed is the sent text
  encoded and decoded again by the platform: the stored body \<^verbatim>\<open>pm-body/<uuid>\<close> is
  shorter than 100 code units and contains \<^verbatim>\<open>/\<close>, so it is taken for an object key and
  the content stored under it is fetched and decoded. The text listed is the original
  whenever encoding and decoding give it back.
\<close>

theorem send_then_retrieve:
  assumes uuid: "length uuid = 36"
    and sender: "usr \<in> set (Users (DB w))"
    and pk: "distinct (map c_id (Conversations (DB w)))"
    and sent: "post_message encode usr now uuid (recipientUsername, body) w
                 = (SuccessResponse (MessageSent cid) CREATED, w')"
    and ps: "0 < pageSize"
    and size: "length (select_messages (DB w') cid) \<le> MAX_SQL_INTEGER"
  shows "\<exists>page rows pg w''. 0 < page
     \<and> get_messages decode usr cid page pageSize w' = (SuccessResponse (MessagePage rows pg) OK, w'')
     \<and> \<lparr>mv_id = next_id (map pm_id (PrivateMessages (DB w))) (seq_PrivateMessages (DB w)),
         mv_body = decode (encode body),
         mv_created_at = now, mv_author_username = u_username usr\<rparr> \<in> set rows"
proof -
  let ?key = "utf16_of (''pm-body/'' @ uuid)"
  let ?id = "next_id (map pm_id (PrivateMessages (DB w))) (seq_PrivateMessages (DB w))"
  let ?pm = "\<lparr>pm_id = ?id, pm_conversation_id = cid,
            pm_author_id = u_id usr, pm_body = ?key, pm_created_at = now\<rparr>"
  let ?raw = "\<lparr>mv_id = ?id, mv_body = ?key,
            mv_created_at = now, mv_author_username = u_username usr\<rparr>"
  from post_message_success [OF sent pk] obtain c where
    users: "Users (DB w') = Users (DB w)"
    and pms: "PrivateMessages (DB w') = PrivateMessages (DB w) @ [?pm]"
    and s3: "S3 w' ?key = Some (encode body)"
    and conv: "find (\<lambda>c. c_id c = cid) (Conversations (DB w')) = Some c"
      "c_user1_id c = u_id usr \<or> c_user2_id c = u_id usr"
    by blast
  have "?pm \<in> set (PrivateMessages (DB w'))" unfolding pms by simp
  moreover have "usr \<in> set (Users (DB w'))" unfolding users by (rule sender)
  ultimately have raw: "?raw \<in> set (select_messages (DB w') cid)"
    using select_messages_mem [of ?pm "DB w'" cid usr] by simp
  from page_exists [OF raw ps] obtain page where
    page: "0 < page" "(page - 1) * pageSize < length (select_messages (DB w') cid)"
      "?raw \<in> set (take pageSize (drop ((page - 1) * pageSize) (select_messages (DB w') cid)))"
    by blast
  have off: "(page - 1) * pageSize \<le> MAX_SQL_INTEGER"
    using page(2) size by linarith
  have key: "length (mv_body ?raw) < 100" "of_char CHR ''/'' \<in> set (mv_body ?raw)"
    using pm_key_is_key [OF uuid] by simp_all
  have "S3 w' (mv_body ?raw) = Some (encode body)" using s3 by simp
  from resolve_body_stored [where msg = ?raw and ?s3.0 = "S3 w'" and content = "encode body"
      and decode = decode, OF key this]
  have res: "resolve_body decode (S3 w') ?raw
      = \<lparr>mv_id = ?id, mv_body = decode (encode body),
         mv_created_at = now, mv_author_username = u_username usr\<rparr>"
    by simp
  from get_messages_participant [OF conv off, of decode] obtain pg w'' where
    g: "get_messages decode usr cid page pageSize w' =
     (SuccessResponse
        (MessagePage (map (resolve_body decode (S3 w'))
                        (take pageSize (drop ((page - 1) * pageSize) (select_messages (DB w') cid)))) pg)
        OK, w'')"
    by blast
  have "resolve_body decode (S3 w') ?raw
      \<in> set (map (resolve_body decode (S3 w'))
                 (take pageSize (drop ((page - 1) * pageSize) (select_messages (DB w') cid))))"
    using page(3) unfolding set_map by (rule imageI)
  with res g page(1) show ?thesis by metis
qed

lemma hello_roundtrip: "TextDecoder_decode (TextEncoder_encode text_hello) = text_hello"
  by (simp add: TextDecoder_decode_def TextEncoder_encode_def text_hello_def utf8_bytes_def
      is_high_surrogate_def is_low_surrogate_def in_range_def utf16_units_def)

lemma bom_hi_encoded: "TextEncoder_encode text_bom_hi = [239, 187, 191, 104, 105]"
  by (simp add: TextEncoder_encode_def text_bom_hi_def utf8_bytes_def
      is_high_surrogate_def is_low_surrogate_def)

lemma bom_hi_decoded: "TextDecoder_decode [239, 187, 191, 104, 105] = [104, 105]"
  by (simp add: TextDecoder_decode_def in_range_def utf16_units_def)

lemma sent_hello:
  "post_message TextEncoder_encode alice 3000 uuid0 (''bob'', body) w_pm
     = (SuccessResponse (MessageSent 1) CREATED,
        \<lparr>KV_SESSIONS = Map.empty,
         DB = \<lparr>Users = [alice, bob], Passkeys = [],
               Conversations = [\<lparr>c_id = 1, c_user1_id = ''u-alice'', c_user2_id = ''u-bob'',
                                 c_created_at = 3000, c_last_message_at = 3000,
                                 c_last_message_excerpt = Some (take 50 (strip_tags_from False body)),
                                 c_user1_unread_count = 0, c_user2_unread_count = 1\<rparr>],
               PrivateMessages = [\<lparr>pm_id = 1, pm_conversation_id = 1, pm_author_id = ''u-alice'',
                                   pm_body = utf16_of (''pm-body/'' @ uuid0), pm_created_at = 3000\<rparr>],
               seq_Conversations = 1, seq_PrivateMessages = 1\<rparr>,
         S3 = Map.empty(utf16_of (''pm-body/'' @ uuid0) \<mapsto> TextEncoder_encode body)\<rparr>)"
  by (simp add: post_message_def w_pm_def empty_db_def alice_def bob_def sort_pair_def
      insert_conversation_def insert_private_message_def next_id_def Let_def
      touch_conversation_def s3_put_def
      less_list_code less_char_def del: append.simps)

theorem send_then_retrieve_witness:
  "\<exists>page rows pg w''. 0 < page
     \<and> get_messages TextDecoder_decode alice 1 page 20
          (snd (post_message TextEncoder_encode alice 3000 uuid0 (''bob'', text_hello) w_pm))
        = (SuccessResponse (MessagePage rows pg) OK, w'')
     \<and> \<lparr>mv_id = 1, mv_body = text_hello, mv_created_at = 3000, mv_author_username = ''alice''\<rparr>
          \<in> set rows"
proof -
  let ?w' = "snd (post_message TextEncoder_encode alice 3000 uuid0 (''bob'', text_hello) w_pm)"
  have uuid: "length uuid0 = 36" by (simp add: uuid0_def)
  have sender: "alice \<in> set (Users (DB w_pm))" by (simp add: w_pm_def empty_db_def)
  have pk: "distinct (map c_id (Conversations (DB w_pm)))" by (simp add: w_pm_def empty_db_def)
  have sent: "post_message TextEncoder_encode alice 3000 uuid0 (''bob'', text_hello) w_pm
      = (SuccessResponse (MessageSent 1) CREATED, ?w')"
    by (simp add: sent_hello)
  have ps: "0 < (20::nat)" by simp
  have size: "length (select_messages (DB ?w') 1) \<le> MAX_SQL_INTEGER"
    unfolding sent_hello
    by (simp add: select_messages_def alice_def bob_def MAX_SQL_INTEGER_def)
  have nid: "next_id (map pm_id (PrivateMessages (DB w_pm))) (seq_PrivateMessages (DB w_pm)) = 1"
    by (simp add: next_id_def w_pm_def empty_db_def)
  have nm: "u_username alice = ''alice''" by (simp add: alice_def)
  from send_then_retrieve [where decode = TextDecoder_decode and encode = TextEncoder_encode
      and body = text_hello and uuid = uuid0 and usr = alice and w = w_pm and now = 3000
      and recipientUsername = "''bob''" and cid = 1 and pageSize = 20 and w' = ?w',
      OF uuid sender pk sent ps size]
  show ?thesis unfolding nid nm hello_roundtrip .
qed

text \<open>
  C7 as stated fails: the text U+FEFF \<^verbatim>\<open>hi\<close> is three code units long and is accepted;
  it is stored with its byte order mark, the decoder leaves the mark out, and the
  retrieval lists \<^verbatim>\<open>hi\<close>.
\<close>

theorem leading_bom_not_returned:
  "length text_bom_hi = 3
   \<and> fst (post_message TextEncoder_encode alice 3000 uuid0 (''bob'', text_bom_hi) w_pm)
        = SuccessResponse (MessageSent 1) CREATED
   \<and> fst (get_messages TextDecoder_decode alice 1 1 20
             (snd (post_message TextEncoder_encode alice 3000 uuid0 (''bob'', text_bom_hi) w_pm)))
        = SuccessResponse
            (MessagePage [\<lparr>mv_id = 1, mv_body = [104, 105], mv_created_at = 3000,
                            mv_author_username = ''alice''\<rparr>]
               \<lparr>pg_page = 1, pg_pageSize = 20, pg_total = 1, pg_totalPages = 1\<rparr>) OK
   \<and> text_bom_hi \<noteq> [104, 105]"
proof -
  have key: "length (utf16_of (''pm-body/'' @ uuid0)) < 100
     \<and> of_char CHR ''/'' \<in> set (utf16_of (''pm-body/'' @ uuid0))"
    by (rule pm_key_is_key) (simp add: uuid0_def)
  have "fst (get_messages TextDecoder_decode alice 1 1 20
             (snd (post_message TextEncoder_encode alice 3000 uuid0 (''bob'', text_bom_hi) w_pm)))
        = SuccessResponse
            (MessagePage [\<lparr>mv_id = 1, mv_body = TextDecoder_decode (TextEncoder_encode text_bom_hi),
                            mv_created_at = 3000, mv_author_username = ''alice''\<rparr>]
               \<lparr>pg_page = 1, pg_pageSize = 20, pg_total = 1, pg_totalPages = 1\<rparr>) OK"
    using key unfolding sent_hello
    by (simp add: get_messages_def select_messages_def resolve_body_def s3_get_def
        clear_unread_def alice_def bob_def MAX_SQL_INTEGER_def Let_def del: append.simps)
  then show ?thesis
    by (simp add: sent_hello bom_hi_encoded bom_hi_decoded) (simp add: text_bom_hi_def)
qed

end
